theory Spec2Isabelle
  imports Complex_Main
begin

section \<open>Errors and tensors\<close>

text \<open>
  The exceptions that can leave \<open>fit\<close> and \<open>decision_function\<close>:
  \<open>ValueError\<close> (input validation, and the loss criterion on tensors of different
  sizes), \<open>RuntimeError\<close> (a matrix product on incompatible shapes),
  \<open>NotFittedError\<close> (\<open>check_is_fitted\<close>) and \<open>UnboundLocalError\<close> (a read of a local
  name that no assignment has bound yet).
\<close>

datatype error = ValueError | RuntimeError | NotFittedError | UnboundLocalError

text \<open>
  A two-dimensional tensor is the list of its rows. Entries are reals and arithmetic is
  exact, with one exception: the sigmoid saturates as its 32-bit float result does (see
  \<open>sigmoid\<close> below). The other roundings of the conversion to \<open>float32\<close>, infinities
  and NaN are not represented.
\<close>

type_synonym tensor = "real list list"

definition and_then :: "error + 'a \<Rightarrow> ('a \<Rightarrow> error + 'b) \<Rightarrow> error + 'b" where
  "and_then m f = (case m of Inl e \<Rightarrow> Inl e | Inr x \<Rightarrow> f x)"

definition ones :: "nat \<Rightarrow> nat \<Rightarrow> tensor" where
  "ones b c = replicate b (replicate c 1)"

definition zeros :: "nat \<Rightarrow> nat \<Rightarrow> tensor" where
  "zeros b c = replicate b (replicate c 0)"

text \<open>The size of a tensor, as the list of its row lengths.\<close>

definition size_of :: "tensor \<Rightarrow> nat list" where
  "size_of t = map length t"

definition ravel :: "tensor \<Rightarrow> real list" where
  "ravel t = concat t"

definition relu :: "real \<Rightarrow> real" where
  "relu x = max 0 x"

text \<open>
  \<open>torch.sigmoid\<close> on a \<open>float32\<close> tensor. The floats next to 1 from below are
  \<open>1 / 2 ^ 24\<close> apart and the smallest positive float is \<open>1 / 2 ^ 149\<close>: a value less
  than \<open>1 / 2 ^ 25\<close> below 1 is returned as exactly 1, and a value below \<open>1 / 2 ^ 150\<close>
  as exactly 0.
\<close>

definition sigmoid :: "real \<Rightarrow> real" where
  "sigmoid x =
     (let s = 1 / (1 + exp (- x))
      in if 1 - s < 1 / 2 ^ 25 then 1 else if s < 1 / 2 ^ 150 then 0 else s)"

section \<open>Linear layers\<close>

text \<open>
  \<open>nn.Linear(in_features, out_features)\<close>: the weight has one row per output and one
  column per input, \<open>weight l j i\<close> with \<open>j < out_features l\<close> and \<open>i < in_features l\<close>;
  the forward pass is \<open>x W\<^sup>T + b\<close> and raises when the rows of \<open>x\<close> do not have
  \<open>in_features\<close> entries.
\<close>

record Linear =
  in_features :: nat
  out_features :: nat
  weight :: "nat \<Rightarrow> nat \<Rightarrow> real"
  bias :: "nat \<Rightarrow> real"

definition Linear_forward :: "Linear \<Rightarrow> tensor \<Rightarrow> error + tensor" where
  "Linear_forward l x =
     (if list_all (\<lambda>row. length row = in_features l) x
      then Inr (map (\<lambda>row. map (\<lambda>j. sum_list (map (\<lambda>i. weight l j i * row ! i)
                                                   [0..<in_features l]) + bias l j)
                              [0..<out_features l]) x)
      else Inl RuntimeError)"

definition map_tensor :: "(real \<Rightarrow> real) \<Rightarrow> tensor \<Rightarrow> tensor" where
  "map_tensor f t = map (map f) t"

section \<open>Generator and Discriminator\<close>

record Generator =
  g_layer1 :: Linear
  g_layer2 :: Linear

record Discriminator =
  d_layer1 :: Linear
  d_layer2 :: Linear

text \<open>\<open>nn.init.eye_\<close>: the identity matrix.\<close>

definition eye :: "nat \<Rightarrow> nat \<Rightarrow> real" where
  "eye j i = (if j = i then 1 else 0)"

text \<open>
  What the program draws at random, what automatic differentiation computes, and what
  the base detector contributes are taken from an environment:
  the initial biases of the Generator's layers and the initial weights and biases of the
  Discriminator's layers (entry by index), the noise of the \<open>t\<close>-th call of
  \<open>torch.rand\<close> (entry by row and column), the raw random choices behind the shuffle
  of each epoch, the gradients of the two losses with respect to the parameters of the
  network being trained (the gradient buffers themselves belong to automatic
  differentiation and are not part of the state), and the two methods of \<open>BaseDetector\<close>
  that \<open>fit\<close> calls: the number of classes that \<open>_set_n_classes\<close> stores, and the
  threshold and labels that \<open>_process_decision_scores\<close> derives from the scores and the
  contamination. \<open>BaseDetector\<close> is not among the sources at hand, so both are
  parameters.
\<close>

type_synonym layer_grad = "(nat \<Rightarrow> nat \<Rightarrow> real) \<times> (nat \<Rightarrow> real)"
type_synonym grads = "layer_grad \<times> layer_grad"

record env =
  generator_bias1 :: "nat \<Rightarrow> real"
  generator_bias2 :: "nat \<Rightarrow> real"
  discriminator_weight1 :: "nat \<Rightarrow> nat \<Rightarrow> real"
  discriminator_bias1 :: "nat \<Rightarrow> real"
  discriminator_weight2 :: "nat \<Rightarrow> nat \<Rightarrow> real"
  discriminator_bias2 :: "nat \<Rightarrow> real"
  rand :: "nat \<Rightarrow> nat \<Rightarrow> nat \<Rightarrow> real"
  randperm :: "nat \<Rightarrow> nat \<Rightarrow> nat"
  d_loss_grad :: "Discriminator \<Rightarrow> Generator \<Rightarrow> tensor \<Rightarrow> tensor \<Rightarrow> grads"
  g_loss_grad :: "Discriminator \<Rightarrow> Generator \<Rightarrow> tensor \<Rightarrow> tensor \<Rightarrow> grads"
  set_n_classes :: int
  process_decision_scores :: "real list \<Rightarrow> real \<Rightarrow> real \<times> int list"

text \<open>\<open>Generator.__init__\<close>: two square layers, both weights set to the identity.\<close>

definition Generator_init :: "env \<Rightarrow> nat \<Rightarrow> Generator" where
  "Generator_init w latent_size =
     \<lparr>g_layer1 = \<lparr>in_features = latent_size, out_features = latent_size,
                  weight = eye, bias = generator_bias1 w\<rparr>,
      g_layer2 = \<lparr>in_features = latent_size, out_features = latent_size,
                  weight = eye, bias = generator_bias2 w\<rparr>\<rparr>"

definition Generator_forward :: "Generator \<Rightarrow> tensor \<Rightarrow> error + tensor" where
  "Generator_forward g x =
     and_then (Linear_forward (g_layer1 g) x) (\<lambda>x1.
     and_then (Linear_forward (g_layer2 g) (map_tensor relu x1)) (\<lambda>x2.
     Inr (map_tensor relu x2)))"

text \<open>
  \<open>Discriminator.__init__\<close>: the hidden width is \<open>math.ceil(math.sqrt(data_size))\<close>.
\<close>

definition Discriminator_init :: "env \<Rightarrow> nat \<Rightarrow> nat \<Rightarrow> Discriminator" where
  "Discriminator_init w latent_size data_size =
     \<lparr>d_layer1 = \<lparr>in_features = latent_size,
                  out_features = nat \<lceil>sqrt (real data_size)\<rceil>,
                  weight = discriminator_weight1 w, bias = discriminator_bias1 w\<rparr>,
      d_layer2 = \<lparr>in_features = nat \<lceil>sqrt (real data_size)\<rceil>, out_features = 1,
                  weight = discriminator_weight2 w, bias = discriminator_bias2 w\<rparr>\<rparr>"

definition Discriminator_forward :: "Discriminator \<Rightarrow> tensor \<Rightarrow> error + tensor" where
  "Discriminator_forward d x =
     and_then (Linear_forward (d_layer1 d) x) (\<lambda>x1.
     and_then (Linear_forward (d_layer2 d) (map_tensor relu x1)) (\<lambda>x2.
     Inr (map_tensor sigmoid x2)))"

section \<open>Loss and optimizer\<close>

text \<open>
  \<open>nn.BCELoss()\<close>: raises \<open>ValueError\<close> when input and target differ in size, then
  \<open>RuntimeError\<close> when an entry of the input is outside \<open>[0, 1]\<close>, and is otherwise the
  mean of the binary cross entropies, each logarithm clamped at \<open>-100\<close>.
\<close>

definition BCELoss :: "tensor \<Rightarrow> tensor \<Rightarrow> error + real" where
  "BCELoss input target =
     (if size_of input \<noteq> size_of target then Inl ValueError
      else if \<not> list_all (\<lambda>x. 0 \<le> x \<and> x \<le> 1) (ravel input) then Inl RuntimeError
      else Inr (sum_list (map2 (\<lambda>x y. - (y * max (ln x) (- 100)
                                          + (1 - y) * max (ln (1 - x)) (- 100)))
                               (ravel input) (ravel target))
                / real (length (ravel input))))"

text \<open>
  \<open>optim.SGD(params, lr, momentum)\<close>. The first step stores the gradient as the momentum
  buffer, a later one stores \<open>momentum * buffer + gradient\<close>; the parameters move by
  \<open>- lr\<close> times the buffer. \<open>step_calls\<close> counts the calls of \<open>step()\<close>.
\<close>

record SGD =
  sgd_lr :: real
  sgd_momentum :: real
  momentum_buffer :: "grads option"
  step_calls :: nat

definition SGD_new :: "real \<Rightarrow> real \<Rightarrow> SGD" where
  "SGD_new l m = \<lparr>sgd_lr = l, sgd_momentum = m, momentum_buffer = None, step_calls = 0\<rparr>"

text \<open>The constructor raises \<open>ValueError\<close> for a negative learning rate or momentum.\<close>

definition SGD_init :: "real \<Rightarrow> real \<Rightarrow> error + SGD" where
  "SGD_init l m = (if l < 0 \<or> m < 0 then Inl ValueError else Inr (SGD_new l m))"

definition add_layer_grad :: "real \<Rightarrow> layer_grad \<Rightarrow> layer_grad \<Rightarrow> layer_grad" where
  "add_layer_grad m b g =
     ((\<lambda>j i. m * fst b j i + fst g j i), (\<lambda>j. m * snd b j + snd g j))"

definition SGD_direction :: "SGD \<Rightarrow> grads \<Rightarrow> grads" where
  "SGD_direction opt g =
     (if sgd_momentum opt \<noteq> 0
      then (case momentum_buffer opt of
              None \<Rightarrow> g
            | Some b \<Rightarrow> (add_layer_grad (sgd_momentum opt) (fst b) (fst g),
                        add_layer_grad (sgd_momentum opt) (snd b) (snd g)))
      else g)"

definition SGD_state :: "SGD \<Rightarrow> grads \<Rightarrow> SGD" where
  "SGD_state opt g =
     (if sgd_momentum opt \<noteq> 0
      then opt\<lparr>momentum_buffer := Some (SGD_direction opt g),
               step_calls := Suc (step_calls opt)\<rparr>
      else opt\<lparr>step_calls := Suc (step_calls opt)\<rparr>)"

definition Linear_update :: "real \<Rightarrow> layer_grad \<Rightarrow> Linear \<Rightarrow> Linear" where
  "Linear_update l g p =
     p\<lparr>weight := (\<lambda>j i. weight p j i - l * fst g j i),
       bias := (\<lambda>j. bias p j - l * snd g j)\<rparr>"

definition Discriminator_step :: "SGD \<Rightarrow> grads \<Rightarrow> Discriminator \<Rightarrow> Discriminator" where
  "Discriminator_step opt g d =
     d\<lparr>d_layer1 := Linear_update (sgd_lr opt) (fst (SGD_direction opt g)) (d_layer1 d),
       d_layer2 := Linear_update (sgd_lr opt) (snd (SGD_direction opt g)) (d_layer2 d)\<rparr>"

definition Generator_step :: "SGD \<Rightarrow> grads \<Rightarrow> Generator \<Rightarrow> Generator" where
  "Generator_step opt g gn =
     gn\<lparr>g_layer1 := Linear_update (sgd_lr opt) (fst (SGD_direction opt g)) (g_layer1 gn),
        g_layer2 := Linear_update (sgd_lr opt) (snd (SGD_direction opt g)) (g_layer2 gn)\<rparr>"

section \<open>Input validation and the data loader\<close>

text \<open>
  \<open>sklearn.utils.check_array\<close> on a nested list of numbers: at least one sample, all
  rows of one length, at least one feature.
\<close>

definition check_array :: "tensor \<Rightarrow> error + tensor" where
  "check_array X =
     (if X = [] then Inl ValueError
      else if \<not> list_all (\<lambda>row. length row = length (hd X)) X then Inl ValueError
      else if length (hd X) = 0 then Inl ValueError
      else Inr X)"

text \<open>
  A shuffle that draws, for each position, one of the remaining elements; \<open>r m\<close> is the
  raw random number used when \<open>Suc m\<close> elements remain.
\<close>

primrec pick_shuffle :: "(nat \<Rightarrow> nat) \<Rightarrow> nat \<Rightarrow> 'a list \<Rightarrow> 'a list" where
  "pick_shuffle r 0 xs = []"
| "pick_shuffle r (Suc m) xs =
     (let k = r m mod Suc m
      in xs ! k # pick_shuffle r m (take k xs @ drop (Suc k) xs))"

definition shuffle :: "(nat \<Rightarrow> nat) \<Rightarrow> 'a list \<Rightarrow> 'a list" where
  "shuffle r xs = pick_shuffle r (length xs) xs"

text \<open>Consecutive batches of \<open>batch_size\<close> elements; the last one may be shorter.\<close>

fun batches :: "nat \<Rightarrow> 'a list \<Rightarrow> 'a list list" where
  "batches batch_size xs =
     (if batch_size = 0 \<or> xs = [] then []
      else take batch_size xs # batches batch_size (drop batch_size xs))"

declare batches.simps [simp del]

text \<open>
  \<open>DataLoader(dataset, batch_size, shuffle=True)\<close>, iterated once: the batches of one
  epoch.
\<close>

definition dataloader :: "(nat \<Rightarrow> nat) \<Rightarrow> nat \<Rightarrow> tensor \<Rightarrow> tensor list" where
  "dataloader r batch_size data = batches batch_size (shuffle r data)"

definition rand_tensor :: "env \<Rightarrow> nat \<Rightarrow> nat \<Rightarrow> nat \<Rightarrow> tensor" where
  "rand_tensor w t b c = map (\<lambda>i. map (\<lambda>j. rand w t i j) [0..<c]) [0..<b]"

section \<open>The detector and its training loop\<close>

text \<open>
  The attributes of an \<open>SO_GAAL\<close> object. Those that \<open>fit\<close> creates are absent
  (\<open>None\<close>) until \<open>fit\<close> assigns them. The attributes \<open>decision_scores_\<close>,
  \<open>threshold_\<close> and \<open>labels_\<close> of the source are written without the final
  underscore.
\<close>

record SO_GAAL =
  stop_epochs :: int
  lr_d :: real
  lr_g :: real
  momentum :: real
  contamination :: real
  classes :: "int option"
  train_history :: "(string \<Rightarrow> real list) option"
  discriminator :: "Discriminator option"
  generator :: "Generator option"
  decision_scores :: "real list option"
  threshold :: "real option"
  labels :: "int list option"

definition SO_GAAL_init :: "int \<Rightarrow> real \<Rightarrow> real \<Rightarrow> real \<Rightarrow> real \<Rightarrow> SO_GAAL" where
  "SO_GAAL_init se ld lg m c =
     \<lparr>stop_epochs = se, lr_d = ld, lr_g = lg, momentum = m, contamination = c,
      classes = None, train_history = None, discriminator = None, generator = None,
      decision_scores = None, threshold = None, labels = None\<rparr>"

text \<open>
  The state of the training loop: the two networks and the history (objects that the
  detector's attributes refer to and that the loop changes in place), the two optimizers,
  and the local variables \<open>stop\<close> and \<open>trick_labels\<close>; \<open>draws\<close> counts the calls of
  \<open>torch.rand\<close>.
\<close>

record train =
  disc :: Discriminator
  gen :: Generator
  history :: "string \<Rightarrow> real list"
  optimizer_d :: SGD
  optimizer_g :: SGD
  stop :: int
  trick_labels :: "tensor option"
  draws :: nat

definition append_history :: "string \<Rightarrow> real \<Rightarrow> (string \<Rightarrow> real list) \<Rightarrow> string \<Rightarrow> real list" where
  "append_history k v h = h(k := h k @ [v])"

text \<open>The discriminator's loss of one batch (source lines 158 to 169).\<close>

definition discriminator_loss :: "train \<Rightarrow> tensor \<Rightarrow> tensor \<Rightarrow> error + real" where
  "discriminator_loss s data_batch noise =
     (let batch_size = length data_batch
      in and_then (Generator_forward (gen s) noise) (\<lambda>generated_data.
         let real_labels = ones batch_size 1;
             fake_labels = zeros batch_size 1
         in and_then (Discriminator_forward (disc s) data_batch) (\<lambda>outputs_real.
            and_then (Discriminator_forward (disc s) generated_data) (\<lambda>outputs_fake.
            and_then (BCELoss outputs_real real_labels) (\<lambda>d_loss_real.
            and_then (BCELoss outputs_fake fake_labels) (\<lambda>d_loss_fake.
            Inr (d_loss_real + d_loss_fake)))))))"

text \<open>
  \<open>criterion(self.discriminator(self.generator(noise)), trick_labels)\<close>, with the value
  that the name \<open>trick_labels\<close> is bound to.
\<close>

definition generator_loss :: "train \<Rightarrow> tensor \<Rightarrow> tensor option \<Rightarrow> error + real" where
  "generator_loss s noise target =
     and_then (Generator_forward (gen s) noise) (\<lambda>generated.
     and_then (Discriminator_forward (disc s) generated) (\<lambda>outputs.
     (case target of
        None \<Rightarrow> Inl UnboundLocalError
      | Some t \<Rightarrow> BCELoss outputs t)))"

text \<open>The branch on \<open>stop\<close> (source lines 177 to 193).\<close>

definition train_generator :: "env \<Rightarrow> tensor \<Rightarrow> nat \<Rightarrow> train \<Rightarrow> error + train" where
  "train_generator w noise batch_size s =
     (if stop s = 0
      then (let s1 = s\<lparr>trick_labels := Some (ones batch_size 1)\<rparr>
            in and_then (generator_loss s1 noise (trick_labels s1)) (\<lambda>g_loss.
               let g = g_loss_grad w (disc s1) (gen s1) noise (ones batch_size 1)
               in Inr (s1\<lparr>gen := Generator_step (optimizer_g s1) g (gen s1),
                          optimizer_g := SGD_state (optimizer_g s1) g,
                          history := append_history ''generator_loss'' g_loss (history s1)\<rparr>)))
      else and_then (generator_loss s noise (trick_labels s)) (\<lambda>g_loss.
             Inr (s\<lparr>history := append_history ''generator_loss'' g_loss (history s)\<rparr>)))"

text \<open>
  One pass of the inner loop body (source lines 153 to 193). The result is the state
  reached and the exception raised, if any: what has been changed in place before a raise
  stays changed.
\<close>

definition train_batch :: "env \<Rightarrow> nat \<Rightarrow> tensor \<Rightarrow> train \<Rightarrow> train \<times> error option" where
  "train_batch w latent_size data_batch s =
     (let batch_size = length data_batch;
          noise = rand_tensor w (draws s) batch_size latent_size;
          s0 = s\<lparr>draws := Suc (draws s)\<rparr>
      in case discriminator_loss s0 data_batch noise of
           Inl e \<Rightarrow> (s0, Some e)
         | Inr d_loss \<Rightarrow>
             (let g = d_loss_grad w (disc s0) (gen s0) data_batch noise;
                  s1 = s0\<lparr>disc := Discriminator_step (optimizer_d s0) g (disc s0),
                          optimizer_d := SGD_state (optimizer_d s0) g,
                          history := append_history ''discriminator_loss'' d_loss (history s0)\<rparr>
              in case train_generator w noise batch_size s1 of
                   Inl e \<Rightarrow> (s1, Some e)
                 | Inr s2 \<Rightarrow> (s2, None)))"

text \<open>A \<open>for\<close> loop whose body may raise: the first exception ends it.\<close>

fun for_each :: "('a \<Rightarrow> 's \<Rightarrow> 's \<times> error option) \<Rightarrow> 'a list \<Rightarrow> 's \<Rightarrow> 's \<times> error option" where
  "for_each f [] s = (s, None)"
| "for_each f (x # xs) s =
     (case f x s of
        (s', None) \<Rightarrow> for_each f xs s'
      | (s', Some e) \<Rightarrow> (s', Some e))"

text \<open>One epoch (source lines 150 to 196).\<close>

definition train_epoch :: "env \<Rightarrow> int \<Rightarrow> nat \<Rightarrow> nat \<Rightarrow> tensor \<Rightarrow> nat \<Rightarrow> train \<Rightarrow> train \<times> error option" where
  "train_epoch w se latent_size batch_size data epoch s =
     (case for_each (train_batch w latent_size)
                    (dataloader (randperm w epoch) batch_size data) s of
        (s', Some e) \<Rightarrow> (s', Some e)
      | (s', None) \<Rightarrow> (if int epoch + 1 > se then s'\<lparr>stop := 1\<rparr> else s', None))"

text \<open>
  The two optimizers (source lines 138 to 141); either constructor may raise.
\<close>

definition optimizers :: "SO_GAAL \<Rightarrow> error + SGD \<times> SGD" where
  "optimizers self =
     and_then (SGD_init (lr_d self) (momentum self)) (\<lambda>optimizer_d.
     and_then (SGD_init (lr_g self) (momentum self)) (\<lambda>optimizer_g.
     Inr (optimizer_d, optimizer_g)))"

text \<open>
  The state in which the loop starts (source lines 131 to 142), the optimizers as their
  constructors build them.
\<close>

definition train_start :: "env \<Rightarrow> SO_GAAL \<Rightarrow> nat \<Rightarrow> nat \<Rightarrow> train" where
  "train_start w self latent_size data_size =
     \<lparr>disc = Discriminator_init w latent_size data_size,
      gen = Generator_init w latent_size,
      history = (\<lambda>k. []),
      optimizer_d = SGD_new (lr_d self) (momentum self),
      optimizer_g = SGD_new (lr_g self) (momentum self),
      stop = 0,
      trick_labels = None,
      draws = 0\<rparr>"

text \<open>
  The whole loop over \<open>range(epochs)\<close> with \<open>epochs = stop_epochs * 3\<close>. When a
  constructor of an optimizer raises, no epoch runs: the networks and the empty history
  of lines 133 to 136 are what the detector is left with.
\<close>

definition training :: "env \<Rightarrow> SO_GAAL \<Rightarrow> tensor \<Rightarrow> train \<times> error option" where
  "training w self X =
     (let latent_size = length (hd X);
          data_size = length X;
          epochs = stop_epochs self * 3
      in case optimizers self of
           Inl e \<Rightarrow> (train_start w self latent_size data_size, Some e)
         | Inr opts \<Rightarrow>
             for_each (train_epoch w (stop_epochs self) latent_size (min 500 data_size) X)
                      [0..<nat epochs]
                      (train_start w self latent_size data_size))"

text \<open>The attributes of the detector that the loop state stands for.\<close>

definition store :: "train \<Rightarrow> SO_GAAL \<Rightarrow> SO_GAAL" where
  "store s self = self\<lparr>train_history := Some (history s),
                       discriminator := Some (disc s),
                       generator := Some (gen s)\<rparr>"

text \<open>
  \<open>SO_GAAL.fit\<close>. The result is the detector after the call and either the exception
  raised or the normal return.
\<close>

definition fit :: "env \<Rightarrow> tensor \<Rightarrow> SO_GAAL \<Rightarrow> SO_GAAL \<times> (error + unit)" where
  "fit w X0 self =
     (case check_array X0 of
        Inl e \<Rightarrow> (self, Inl e)
      | Inr X \<Rightarrow>
          (let self1 = self\<lparr>classes := Some (set_n_classes w)\<rparr>
           in case training w self1 X of
                (s, Some e) \<Rightarrow> (store s self1, Inl e)
              | (s, None) \<Rightarrow>
                  (case Discriminator_forward (disc s) X of
                     Inl e \<Rightarrow> (store s self1, Inl e)
                   | Inr out \<Rightarrow>
                       (let scores = ravel out;
                            p = process_decision_scores w scores (contamination self1)
                        in ((store s self1)\<lparr>decision_scores := Some scores,
                                            threshold := Some (fst p),
                                            labels := Some (snd p)\<rparr>, Inr ())))))"

text \<open>\<open>SO_GAAL.decision_function\<close>.\<close>

definition decision_function :: "tensor \<Rightarrow> SO_GAAL \<Rightarrow> error + real list" where
  "decision_function X0 self =
     (case discriminator self of
        None \<Rightarrow> Inl NotFittedError
      | Some d \<Rightarrow>
          and_then (check_array X0) (\<lambda>X.
          and_then (Discriminator_forward d X) (\<lambda>out.
          Inr (ravel out))))"

section \<open>Auxiliary notions\<close>

definition rows :: "nat \<Rightarrow> tensor \<Rightarrow> bool" where
  "rows d x \<longleftrightarrow> list_all (\<lambda>row. length row = d) x"

definition Generator_shaped :: "nat \<Rightarrow> Generator \<Rightarrow> bool" where
  "Generator_shaped d g \<longleftrightarrow>
     in_features (g_layer1 g) = d \<and> out_features (g_layer1 g) = d \<and>
     in_features (g_layer2 g) = d \<and> out_features (g_layer2 g) = d"

definition Discriminator_shaped :: "nat \<Rightarrow> Discriminator \<Rightarrow> bool" where
  "Discriminator_shaped d c \<longleftrightarrow>
     in_features (d_layer1 c) = d \<and>
     in_features (d_layer2 c) = out_features (d_layer1 c) \<and>
     out_features (d_layer2 c) = 1"

definition shaped :: "nat \<Rightarrow> train \<Rightarrow> bool" where
  "shaped d s \<longleftrightarrow> Generator_shaped d (gen s) \<and> Discriminator_shaped d (disc s)"

definition advanced :: "nat \<Rightarrow> nat \<Rightarrow> nat \<Rightarrow> train \<Rightarrow> train \<Rightarrow> bool" where
  "advanced nd nl ng s s' \<longleftrightarrow>
     length (history s' ''discriminator_loss'') = length (history s ''discriminator_loss'') + nd \<and>
     step_calls (optimizer_d s') = step_calls (optimizer_d s) + nd \<and>
     length (history s' ''generator_loss'') = length (history s ''generator_loss'') + nl \<and>
     step_calls (optimizer_g s') = step_calls (optimizer_g s) + ng"

text \<open>The number of batches of an epoch and the size of its last batch.\<close>

definition n_batches :: "nat \<Rightarrow> nat" where
  "n_batches n = (n + min 500 n - 1) div min 500 n"

definition last_batch_size :: "nat \<Rightarrow> nat" where
  "last_batch_size n = (if n mod min 500 n = 0 then min 500 n else n mod min 500 n)"

text \<open>The first \<open>k\<close> epochs, from the state in which the loop starts.\<close>

definition epochs_loop :: "env \<Rightarrow> SO_GAAL \<Rightarrow> tensor \<Rightarrow> nat \<Rightarrow> train \<times> error option" where
  "epochs_loop w self X k =
     for_each (train_epoch w (stop_epochs self) (length (hd X)) (min 500 (length X)) X)
              [0..<k]
              (train_start w self (length (hd X)) (length X))"

text \<open>The training loop cut after its first \<open>k\<close> epochs.\<close>

definition epochs_run :: "env \<Rightarrow> SO_GAAL \<Rightarrow> tensor \<Rightarrow> nat \<Rightarrow> train \<times> error option" where
  "epochs_run w self X k =
     (case optimizers self of
        Inl e \<Rightarrow> (train_start w self (length (hd X)) (length X), Some e)
      | Inr opts \<Rightarrow> epochs_loop w self X k)"

text \<open>Hyperparameters that the optimizers accept.\<close>

definition accepted :: "SO_GAAL \<Rightarrow> bool" where
  "accepted self \<longleftrightarrow> 0 \<le> lr_d self \<and> 0 \<le> lr_g self \<and> 0 \<le> momentum self"

text \<open>Entries in the closed unit interval.\<close>

definition unit_range :: "tensor \<Rightarrow> bool" where
  "unit_range t \<longleftrightarrow> list_all (\<lambda>x. 0 \<le> x \<and> x \<le> 1) (ravel t)"

text \<open>
  An environment and detectors for concrete runs: constant initial parameters, noise
  and gradients, and a detector with the default learning rates, momentum and
  contamination.
\<close>

definition demo_env :: env where
  "demo_env =
     \<lparr>generator_bias1 = (\<lambda>j. 1 / 2), generator_bias2 = (\<lambda>j. 1 / 4),
      discriminator_weight1 = (\<lambda>j i. 1), discriminator_bias1 = (\<lambda>j. 0),
      discriminator_weight2 = (\<lambda>j i. 1), discriminator_bias2 = (\<lambda>j. 0),
      rand = (\<lambda>t i j. 1 / 2), randperm = (\<lambda>e m. 0),
      d_loss_grad = (\<lambda>d g x z. (((\<lambda>j i. 1), (\<lambda>j. 1)), ((\<lambda>j i. 1), (\<lambda>j. 1)))),
      g_loss_grad = (\<lambda>d g z t. (((\<lambda>j i. 1), (\<lambda>j. 1)), ((\<lambda>j i. 1), (\<lambda>j. 1)))),
      set_n_classes = 2,
      process_decision_scores = (\<lambda>sc c. (0, map (\<lambda>x. 0) sc))\<rparr>"

definition zero_bias_env :: env where
  "zero_bias_env = demo_env\<lparr>generator_bias1 := (\<lambda>j. 0), generator_bias2 := (\<lambda>j. 0)\<rparr>"

definition detector :: "int \<Rightarrow> SO_GAAL" where
  "detector se = SO_GAAL_init se (1 / 100) (1 / 10000) (9 / 10) (1 / 10)"

section \<open>The forward passes and one batch\<close>

lemma advanced_refl: "advanced 0 0 0 s s"
  by (simp add: advanced_def)

lemma advanced_trans:
  "advanced a b c s s' \<Longrightarrow> advanced a' b' c' s' s'' \<Longrightarrow> advanced (a + a') (b + b') (c + c') s s''"
  by (simp add: advanced_def)

lemma Linear_forward_rows:
  assumes "rows (in_features l) x"
  shows "\<exists>y. Linear_forward l x = Inr y \<and> length y = length x \<and> rows (out_features l) y"
  using assms by (simp add: Linear_forward_def rows_def list_all_iff)

lemma Linear_forward_mismatch:
  assumes "\<not> rows (in_features l) x"
  shows "Linear_forward l x = Inl RuntimeError"
  using assms by (simp add: Linear_forward_def rows_def)

lemma rows_map_tensor: "rows d (map_tensor f x) = rows d x"
  by (simp add: rows_def map_tensor_def list_all_iff)

lemma length_map_tensor: "length (map_tensor f x) = length x"
  by (simp add: map_tensor_def)

lemma size_of_rows: "rows d x \<Longrightarrow> size_of x = replicate (length x) d"
  by (induction x) (auto simp: rows_def size_of_def)

lemma sigmoid_range: "0 \<le> sigmoid x" "sigmoid x \<le> 1"
proof -
  have p: "0 < exp (- x)" by simp
  then have a: "0 < 1 / (1 + exp (- x))" by (simp add: add_pos_pos)
  have "1 < 1 + exp (- x)" using p by simp
  then have "1 / (1 + exp (- x)) < 1 / 1"
    by (intro divide_strict_left_mono) (simp_all add: add_pos_pos)
  then have b: "1 / (1 + exp (- x)) < 1" by simp
  show "0 \<le> sigmoid x" using a by (simp add: sigmoid_def Let_def)
  show "sigmoid x \<le> 1" using b by (simp add: sigmoid_def Let_def)
qed

lemma unit_range_sigmoid: "unit_range (map_tensor sigmoid t)"
  by (auto simp: unit_range_def ravel_def map_tensor_def list_all_iff sigmoid_range)

lemma Generator_forward_rows:
  assumes "Generator_shaped d g" "rows d x"
  shows "\<exists>y. Generator_forward g x = Inr y \<and> length y = length x \<and> rows d y"
proof -
  from assms obtain x1 where 1: "Linear_forward (g_layer1 g) x = Inr x1" "length x1 = length x" "rows d x1"
    using Linear_forward_rows [of "g_layer1 g" x] by (auto simp: Generator_shaped_def)
  from assms 1 obtain x2 where 2: "Linear_forward (g_layer2 g) (map_tensor relu x1) = Inr x2"
      "length x2 = length x" "rows d x2"
    using Linear_forward_rows [of "g_layer2 g" "map_tensor relu x1"]
    by (auto simp: Generator_shaped_def rows_map_tensor length_map_tensor)
  show ?thesis
    by (simp add: Generator_forward_def and_then_def 1 2 rows_map_tensor length_map_tensor)
qed

lemma Discriminator_forward_rows:
  assumes "Discriminator_shaped d c" "rows d x"
  shows "\<exists>y. Discriminator_forward c x = Inr y \<and> length y = length x \<and> rows 1 y \<and>
             unit_range y"
proof -
  from assms obtain x1 where 1: "Linear_forward (d_layer1 c) x = Inr x1" "length x1 = length x"
      "rows (out_features (d_layer1 c)) x1"
    using Linear_forward_rows [of "d_layer1 c" x] by (auto simp: Discriminator_shaped_def)
  from assms 1 obtain x2 where 2: "Linear_forward (d_layer2 c) (map_tensor relu x1) = Inr x2"
      "length x2 = length x" "rows 1 x2"
    using Linear_forward_rows [of "d_layer2 c" "map_tensor relu x1"]
    by (auto simp: Discriminator_shaped_def rows_map_tensor length_map_tensor simp del: One_nat_def)
  show ?thesis
    by (simp add: Discriminator_forward_def and_then_def 1 2 rows_map_tensor length_map_tensor
          unit_range_sigmoid del: One_nat_def)
qed

lemma Discriminator_forward_mismatch:
  assumes "Discriminator_shaped d c" "\<not> rows d x"
  shows "Discriminator_forward c x = Inl RuntimeError"
  using assms Linear_forward_mismatch [of "d_layer1 c" x]
  by (simp add: Discriminator_forward_def and_then_def Discriminator_shaped_def)

lemma rows_ones: "rows c (ones b c)" and rows_zeros: "rows c (zeros b c)"
  by (simp_all add: rows_def ones_def zeros_def list_all_iff)

lemma length_ones: "length (ones b c) = b" and length_zeros: "length (zeros b c) = b"
  by (simp_all add: ones_def zeros_def)

lemma BCELoss_same_size:
  assumes "rows c x" "rows c t" "length x = length t" "unit_range x"
  shows "\<exists>v. BCELoss x t = Inr v"
  using assms by (simp add: BCELoss_def size_of_rows unit_range_def)

lemma BCELoss_mismatch:
  assumes "length x \<noteq> length t"
  shows "BCELoss x t = Inl ValueError"
proof -
  have "size_of x \<noteq> size_of t"
    using assms by (metis length_map size_of_def)
  then show ?thesis by (simp add: BCELoss_def)
qed

lemma rows_rand_tensor: "rows c (rand_tensor w t b c)"
  and length_rand_tensor: "length (rand_tensor w t b c) = b"
  by (simp_all add: rand_tensor_def rows_def list_all_iff)

lemma discriminator_loss_ok:
  assumes "shaped d s" "rows d data_batch"
  shows "\<exists>v. discriminator_loss s data_batch (rand_tensor w t (length data_batch) d) = Inr v"
proof -
  let ?noise = "rand_tensor w t (length data_batch) d"
  from assms obtain gd where gd: "Generator_forward (gen s) ?noise = Inr gd"
      "length gd = length data_batch" "rows d gd"
    using Generator_forward_rows [of d "gen s" ?noise]
    by (auto simp: shaped_def rows_rand_tensor length_rand_tensor)
  from assms obtain o1 where o1: "Discriminator_forward (disc s) data_batch = Inr o1"
      "length o1 = length data_batch" "rows 1 o1" "unit_range o1"
    using Discriminator_forward_rows [of d "disc s" data_batch] by (auto simp: shaped_def)
  from assms gd obtain o2 where o2: "Discriminator_forward (disc s) gd = Inr o2"
      "length o2 = length data_batch" "rows 1 o2" "unit_range o2"
    using Discriminator_forward_rows [of d "disc s" gd] by (auto simp: shaped_def)
  obtain v1 where v1: "BCELoss o1 (ones (length data_batch) 1) = Inr v1"
    using BCELoss_same_size [of 1 o1 "ones (length data_batch) 1"] o1
    by (auto simp: rows_ones length_ones simp del: One_nat_def)
  obtain v2 where v2: "BCELoss o2 (zeros (length data_batch) 1) = Inr v2"
    using BCELoss_same_size [of 1 o2 "zeros (length data_batch) 1"] o2
    by (auto simp: rows_zeros length_zeros simp del: One_nat_def)
  show ?thesis
    by (simp add: discriminator_loss_def and_then_def Let_def gd o1 o2 v1 v2 del: One_nat_def)
qed

lemma generator_loss_ok:
  assumes "shaped d s"
  shows "\<exists>v. generator_loss s (rand_tensor w t b d) (Some (ones b 1)) = Inr v"
proof -
  let ?noise = "rand_tensor w t b d"
  from assms obtain gd where gd: "Generator_forward (gen s) ?noise = Inr gd"
      "length gd = b" "rows d gd"
    using Generator_forward_rows [of d "gen s" ?noise]
    by (auto simp: shaped_def rows_rand_tensor length_rand_tensor)
  from assms gd obtain o2 where o2: "Discriminator_forward (disc s) gd = Inr o2"
      "length o2 = b" "rows 1 o2" "unit_range o2"
    using Discriminator_forward_rows [of d "disc s" gd] by (auto simp: shaped_def)
  obtain v where v: "BCELoss o2 (ones b 1) = Inr v"
    using BCELoss_same_size [of 1 o2 "ones b 1"] o2
    by (auto simp: rows_ones length_ones simp del: One_nat_def)
  show ?thesis
    by (simp add: generator_loss_def and_then_def gd o2 v del: One_nat_def)
qed

lemma generator_loss_mismatch:
  assumes "shaped d s" "b \<noteq> c"
  shows "generator_loss s (rand_tensor w t b d) (Some (ones c 1)) = Inl ValueError"
proof -
  let ?noise = "rand_tensor w t b d"
  from assms obtain gd where gd: "Generator_forward (gen s) ?noise = Inr gd"
      "length gd = b" "rows d gd"
    using Generator_forward_rows [of d "gen s" ?noise]
    by (auto simp: shaped_def rows_rand_tensor length_rand_tensor)
  from assms gd obtain o2 where o2: "Discriminator_forward (disc s) gd = Inr o2"
      "length o2 = b" "rows 1 o2" "unit_range o2"
    using Discriminator_forward_rows [of d "disc s" gd] by (auto simp: shaped_def)
  have v: "BCELoss o2 (ones c 1) = Inl ValueError"
    using BCELoss_mismatch [of o2 "ones c 1"] o2 assms by (simp add: length_ones del: One_nat_def)
  show ?thesis
    by (simp add: generator_loss_def and_then_def gd o2 v del: One_nat_def)
qed

lemma Generator_step_shaped: "Generator_shaped d (Generator_step opt g gn) = Generator_shaped d gn"
  by (simp add: Generator_shaped_def Generator_step_def Linear_update_def)

lemma Discriminator_step_shaped:
  "Discriminator_shaped d (Discriminator_step opt g c) = Discriminator_shaped d c"
  by (simp add: Discriminator_shaped_def Discriminator_step_def Linear_update_def)

lemma step_calls_SGD_state: "step_calls (SGD_state opt g) = Suc (step_calls opt)"
  by (simp add: SGD_state_def)


lemma train_batch_growing:
  assumes "shaped d s" "rows d b" "stop s = 0"
  shows "\<exists>s'. train_batch w d b s = (s', None) \<and> shaped d s' \<and> stop s' = 0 \<and>
              trick_labels s' = Some (ones (length b) 1) \<and> advanced 1 1 1 s s'"
proof -
  let ?noise = "rand_tensor w (draws s) (length b) d"
  let ?s0 = "s\<lparr>draws := Suc (draws s)\<rparr>"
  have sh0: "shaped d ?s0" using assms(1) by (simp add: shaped_def)
  obtain v where v: "discriminator_loss ?s0 b ?noise = Inr v"
    using discriminator_loss_ok [OF sh0 assms(2), of w "draws s"] by auto
  let ?g = "d_loss_grad w (disc ?s0) (gen ?s0) b ?noise"
  let ?s1 = "?s0\<lparr>disc := Discriminator_step (optimizer_d ?s0) ?g (disc ?s0),
                 optimizer_d := SGD_state (optimizer_d ?s0) ?g,
                 history := append_history ''discriminator_loss'' v (history ?s0)\<rparr>"
  let ?s1' = "?s1\<lparr>trick_labels := Some (ones (length b) 1)\<rparr>"
  have sh1: "shaped d ?s1'"
    using assms(1) by (simp add: shaped_def Discriminator_step_shaped)
  obtain u where u: "generator_loss ?s1' ?noise (Some (ones (length b) 1)) = Inr u"
    using generator_loss_ok [OF sh1, of w "draws s" "length b"] by auto
  have st: "stop ?s1 = 0" using assms(3) by simp
  let ?h = "g_loss_grad w (disc ?s1') (gen ?s1') ?noise (ones (length b) 1)"
  let ?s2 = "?s1'\<lparr>gen := Generator_step (optimizer_g ?s1') ?h (gen ?s1'),
                  optimizer_g := SGD_state (optimizer_g ?s1') ?h,
                  history := append_history ''generator_loss'' u (history ?s1')\<rparr>"
  have tg: "train_generator w ?noise (length b) ?s1 = Inr ?s2"
    unfolding train_generator_def using st u
    by (simp add: and_then_def Let_def del: One_nat_def)
  have tb: "train_batch w d b s = (?s2, None)"
    unfolding train_batch_def Let_def using v tg by simp
  have p1: "shaped d ?s2"
    using assms(1) by (simp add: shaped_def Discriminator_step_shaped Generator_step_shaped)
  have p2: "advanced 1 1 1 s ?s2"
    by (simp add: advanced_def append_history_def step_calls_SGD_state)
  have p3: "stop ?s2 = 0" using assms(3) by simp
  have p4: "trick_labels ?s2 = Some (ones (length b) 1)" by simp
  show ?thesis using tb p1 p2 p3 p4 by blast
qed

lemma train_batch_frozen:
  assumes "shaped d s" "rows d b" "stop s \<noteq> 0" "trick_labels s = Some (ones (length b) 1)"
  shows "\<exists>s'. train_batch w d b s = (s', None) \<and> shaped d s' \<and> stop s' = stop s \<and>
              trick_labels s' = trick_labels s \<and> gen s' = gen s \<and> advanced 1 1 0 s s'"
proof -
  let ?noise = "rand_tensor w (draws s) (length b) d"
  let ?s0 = "s\<lparr>draws := Suc (draws s)\<rparr>"
  have sh0: "shaped d ?s0" using assms(1) by (simp add: shaped_def)
  obtain v where v: "discriminator_loss ?s0 b ?noise = Inr v"
    using discriminator_loss_ok [OF sh0 assms(2), of w "draws s"] by auto
  let ?g = "d_loss_grad w (disc ?s0) (gen ?s0) b ?noise"
  let ?s1 = "?s0\<lparr>disc := Discriminator_step (optimizer_d ?s0) ?g (disc ?s0),
                 optimizer_d := SGD_state (optimizer_d ?s0) ?g,
                 history := append_history ''discriminator_loss'' v (history ?s0)\<rparr>"
  have sh1: "shaped d ?s1"
    using assms(1) by (simp add: shaped_def Discriminator_step_shaped)
  obtain u where u: "generator_loss ?s1 ?noise (Some (ones (length b) 1)) = Inr u"
    using generator_loss_ok [OF sh1, of w "draws s" "length b"] by auto
  have st: "stop ?s1 \<noteq> 0" using assms(3) by simp
  have tl: "trick_labels ?s1 = Some (ones (length b) 1)" using assms(4) by simp
  let ?s2 = "?s1\<lparr>history := append_history ''generator_loss'' u (history ?s1)\<rparr>"
  have tg: "train_generator w ?noise (length b) ?s1 = Inr ?s2"
    unfolding train_generator_def using st u tl
    by (simp add: and_then_def del: One_nat_def)
  have tb: "train_batch w d b s = (?s2, None)"
    unfolding train_batch_def Let_def using v tg by simp
  have p1: "shaped d ?s2"
    using assms(1) by (simp add: shaped_def Discriminator_step_shaped)
  have p2: "advanced 1 1 0 s ?s2"
    by (simp add: advanced_def append_history_def step_calls_SGD_state)
  have p3: "stop ?s2 = stop s" "trick_labels ?s2 = trick_labels s" "gen ?s2 = gen s" by simp_all
  show ?thesis using tb p1 p2 p3 by blast
qed

lemma train_batch_stale_labels:
  assumes "shaped d s" "rows d b" "stop s \<noteq> 0" "trick_labels s = Some (ones c 1)" "length b \<noteq> c"
  shows "\<exists>s'. train_batch w d b s = (s', Some ValueError) \<and> shaped d s' \<and> stop s' = stop s \<and>
              trick_labels s' = trick_labels s \<and> gen s' = gen s \<and> advanced 1 0 0 s s'"
proof -
  let ?noise = "rand_tensor w (draws s) (length b) d"
  let ?s0 = "s\<lparr>draws := Suc (draws s)\<rparr>"
  have sh0: "shaped d ?s0" using assms(1) by (simp add: shaped_def)
  obtain v where v: "discriminator_loss ?s0 b ?noise = Inr v"
    using discriminator_loss_ok [OF sh0 assms(2), of w "draws s"] by auto
  let ?g = "d_loss_grad w (disc ?s0) (gen ?s0) b ?noise"
  let ?s1 = "?s0\<lparr>disc := Discriminator_step (optimizer_d ?s0) ?g (disc ?s0),
                 optimizer_d := SGD_state (optimizer_d ?s0) ?g,
                 history := append_history ''discriminator_loss'' v (history ?s0)\<rparr>"
  have sh1: "shaped d ?s1"
    using assms(1) by (simp add: shaped_def Discriminator_step_shaped)
  have u: "generator_loss ?s1 ?noise (Some (ones c 1)) = Inl ValueError"
    using generator_loss_mismatch [OF sh1 assms(5), of w "draws s"] by auto
  have st: "stop ?s1 \<noteq> 0" using assms(3) by simp
  have tl: "trick_labels ?s1 = Some (ones c 1)" using assms(4) by simp
  have tg: "train_generator w ?noise (length b) ?s1 = Inl ValueError"
    unfolding train_generator_def using st u tl
    by (simp add: and_then_def del: One_nat_def)
  have tb: "train_batch w d b s = (?s1, Some ValueError)"
    unfolding train_batch_def Let_def using v tg by simp
  have p2: "advanced 1 0 0 s ?s1"
    by (simp add: advanced_def append_history_def step_calls_SGD_state)
  have p3: "stop ?s1 = stop s" "trick_labels ?s1 = trick_labels s" "gen ?s1 = gen s" by simp_all
  show ?thesis using tb sh1 p2 p3 by blast
qed

section \<open>Loops, shuffling and batching\<close>

lemma for_each_append:
  "for_each f (xs @ ys) s =
     (case for_each f xs s of (s', None) \<Rightarrow> for_each f ys s' | (s', Some e) \<Rightarrow> (s', Some e))"
  by (induction xs arbitrary: s) (auto split: prod.splits option.splits)

lemma length_pick_shuffle: "length (pick_shuffle r m xs) = m"
  by (induction m arbitrary: xs) (simp_all add: Let_def)

lemma set_pick_shuffle: "m = length xs \<Longrightarrow> set (pick_shuffle r m xs) \<subseteq> set xs"
proof (induction m arbitrary: xs)
  case 0
  then show ?case by simp
next
  case (Suc m)
  let ?k = "r m mod Suc m"
  let ?rest = "take ?k xs @ drop (Suc ?k) xs"
  have k: "?k < length xs" using Suc.prems [symmetric] by simp
  have len: "m = length ?rest" using Suc.prems k by simp
  have "set ?rest \<subseteq> set xs"
    by (auto dest: in_set_takeD in_set_dropD)
  with Suc.IH [OF len] have "set (pick_shuffle r m ?rest) \<subseteq> set xs" by blast
  moreover have "xs ! ?k \<in> set xs" using k by simp
  ultimately show ?case by (simp add: Let_def)
qed

lemma length_shuffle: "length (shuffle r xs) = length xs"
  by (simp add: shuffle_def length_pick_shuffle)

lemma set_shuffle: "set (shuffle r xs) \<subseteq> set xs"
  by (simp add: shuffle_def set_pick_shuffle)

lemma batches_Nil: "batches b [] = []"
  by (simp add: batches.simps)

lemma batches_step:
  "0 < b \<Longrightarrow> xs \<noteq> [] \<Longrightarrow> batches b xs = take b xs # batches b (drop b xs)"
  by (subst batches.simps) simp

lemma batches_short:
  "0 < b \<Longrightarrow> xs \<noteq> [] \<Longrightarrow> length xs \<le> b \<Longrightarrow> batches b xs = [xs]"
  by (simp add: batches_step batches_Nil)

lemma set_batches: "ys \<in> set (batches b xs) \<Longrightarrow> set ys \<subseteq> set xs"
proof (induction b xs rule: batches.induct)
  case (1 b xs)
  show ?case
  proof (cases "b = 0 \<or> xs = []")
    case True
    with 1 show ?thesis by (simp add: batches.simps)
  next
    case False
    with 1 show ?thesis
      by (auto simp: batches_step dest: in_set_takeD in_set_dropD)
  qed
qed

lemma length_batches: "0 < b \<Longrightarrow> length (batches b xs) = (length xs + b - 1) div b"
proof (induction b xs rule: batches.induct)
  case (1 b xs)
  show ?case
  proof (cases "xs = []")
    case True
    then show ?thesis using 1(2) by (simp add: batches_Nil)
  next
    case False
    have ih: "length (batches b (drop b xs)) = (length (drop b xs) + b - 1) div b"
      using 1 False by simp
    have "length xs + b - 1 = b + (length xs - 1)"
      using False by (cases xs) simp_all
    then have "(length xs + b - 1) div b = (b + (length xs - 1)) div b"
      by (rule arg_cong)
    also have "\<dots> = Suc ((length xs - 1) div b)"
      using 1(2) by (simp only: div_add_self1)
    finally have l: "(length xs + b - 1) div b = Suc ((length xs - 1) div b)" .
    show ?thesis
    proof (cases "length xs \<le> b")
      case True
      then show ?thesis using False 1(2) l by (simp add: batches_short)
    next
      case False2: False
      then have "length (drop b xs) + b - 1 = length xs - 1" by simp
      then show ?thesis using False 1(2) ih l by (simp add: batches_step)
    qed
  qed
qed

lemma batches_hd:
  assumes "0 < b" "xs \<noteq> []"
  shows "\<exists>ys rest. batches b xs = ys # rest \<and> length ys = min b (length xs)"
  using assms by (simp add: batches_step min.commute)

lemma batches_last:
  "0 < b \<Longrightarrow> xs \<noteq> [] \<Longrightarrow>
   length (last (batches b xs)) = (if length xs mod b = 0 then b else length xs mod b)"
proof (induction b xs rule: batches.induct)
  case (1 b xs)
  show ?case
  proof (cases "length xs \<le> b")
    case True
    have "0 < length xs" using 1(3) by simp
    then have "length xs mod b = (if length xs = b then 0 else length xs)"
      using True by auto
    then show ?thesis using 1 True by (auto simp: batches_short)
  next
    case False
    then have ne: "drop b xs \<noteq> []" by simp
    have ih: "length (last (batches b (drop b xs))) =
              (if length (drop b xs) mod b = 0 then b else length (drop b xs) mod b)"
      using 1 ne by simp
    have m: "length (drop b xs) mod b = length xs mod b"
      using False by (simp add: le_mod_geq)
    have "batches b (drop b xs) \<noteq> []"
      using batches_hd [OF 1(2) ne] by auto
    then show ?thesis using 1(2,3) ih m by (simp add: batches_step)
  qed
qed

lemma batches_uniform:
  "0 < b \<Longrightarrow> length xs mod b = 0 \<Longrightarrow> ys \<in> set (batches b xs) \<Longrightarrow> length ys = b"
proof (induction b xs rule: batches.induct)
  case (1 b xs)
  show ?case
  proof (cases "xs = []")
    case True
    with 1 show ?thesis by (simp add: batches_Nil)
  next
    case False
    then have "0 < length xs" by simp
    then have le: "b \<le> length xs" using 1(2,3) by (metis mod_less not_le less_numeral_extra(3))
    have m: "length (drop b xs) mod b = 0"
      using le 1(3) by (simp add: le_mod_geq)
    from 1(4) False 1(2) have "ys = take b xs \<or> ys \<in> set (batches b (drop b xs))"
      by (simp add: batches_step)
    then show ?thesis
    proof
      assume "ys = take b xs"
      then show ?thesis using le by simp
    next
      assume "ys \<in> set (batches b (drop b xs))"
      then show ?thesis using 1(1) [OF _ 1(2) m] False 1(2) by simp
    qed
  qed
qed

lemma batches_nonempty: "ys \<in> set (batches b xs) \<Longrightarrow> ys \<noteq> []"
proof (induction b xs rule: batches.induct)
  case (1 b xs)
  show ?case
  proof (cases "b = 0 \<or> xs = []")
    case True
    with 1 show ?thesis by (simp add: batches.simps)
  next
    case False
    with 1 show ?thesis by (auto simp: batches_step)
  qed
qed

section \<open>The batches of an epoch\<close>

lemma dataloader_rows:
  assumes "rows d X" "b \<in> set (dataloader r B X)"
  shows "rows d b"
proof -
  have "b \<in> set (batches B (shuffle r X))"
    using assms(2) by (simp only: dataloader_def)
  then have "set b \<subseteq> set (shuffle r X)"
    by (rule set_batches)
  then have "set b \<subseteq> set X" using set_shuffle [of r X] by (rule subset_trans)
  then show ?thesis using assms(1) unfolding rows_def list_all_iff by blast
qed

lemma dataloader_length:
  assumes "X \<noteq> []"
  shows "length (dataloader r (min 500 (length X)) X) = n_batches (length X)"
proof -
  have "0 < min 500 (length X)" using assms by simp
  then show ?thesis
    by (simp add: dataloader_def length_batches length_shuffle n_batches_def)
qed

lemma n_batches_pos:
  assumes "0 < n"
  shows "0 < n_batches n"
proof -
  define B where "B = min 500 n"
  have "0 < B" "B \<le> n + B - 1" using assms by (simp_all add: B_def)
  then have "0 < (n + B - 1) div B" by (simp only: div_greater_zero_iff)
  then show ?thesis by (simp add: n_batches_def B_def)
qed

lemma dataloader_not_Nil:
  assumes "X \<noteq> []"
  shows "dataloader r (min 500 (length X)) X \<noteq> []"
  using dataloader_length [OF assms, of r] n_batches_pos [of "length X"] assms by auto

lemma dataloader_last:
  assumes "X \<noteq> []"
  shows "length (last (dataloader r (min 500 (length X)) X)) = last_batch_size (length X)"
proof -
  have p: "0 < min 500 (length X)" using assms by simp
  have ne: "shuffle r X \<noteq> []" using assms length_shuffle [of r X] by auto
  show ?thesis
    using batches_last [OF p ne] by (simp add: dataloader_def length_shuffle last_batch_size_def)
qed

lemma dataloader_uniform:
  assumes "X \<noteq> []" "length X \<le> 500 \<or> length X mod 500 = 0"
    "b \<in> set (dataloader r (min 500 (length X)) X)"
  shows "length b = last_batch_size (length X)"
proof -
  define B where "B = min 500 (length X)"
  have p: "0 < B" using assms(1) by (simp add: B_def)
  have m: "length X mod B = 0"
  proof (cases "length X \<le> 500")
    case True
    then have "B = length X" by (simp add: B_def)
    then show ?thesis by simp
  next
    case False
    then have "B = 500" by (simp add: B_def)
    moreover have "length X mod 500 = 0" using assms(2) False by blast
    ultimately show ?thesis by simp
  qed
  then have l1: "length (shuffle r X) mod B = 0" by (simp only: length_shuffle)
  have l2: "b \<in> set (batches B (shuffle r X))"
    using assms(3) by (simp only: dataloader_def B_def)
  have "length b = B" by (rule batches_uniform [OF p l1 l2])
  moreover have "last_batch_size (length X) = B"
    using m unfolding last_batch_size_def B_def by (simp only: refl if_True)
  ultimately show ?thesis by simp
qed

lemma dataloader_first:
  assumes "500 < length X" "length X mod 500 \<noteq> 0"
  shows "\<exists>b rest. dataloader r (min 500 (length X)) X = b # rest \<and>
                  length b \<noteq> last_batch_size (length X)"
proof -
  define m where "m = length X mod 500"
  have m: "m < 500" "m \<noteq> 0" using assms(2) by (simp_all add: m_def)
  have B: "min 500 (length X) = 500" using assms(1) by simp
  have ne: "shuffle r X \<noteq> []" using assms(1) length_shuffle [of r X] by auto
  obtain b rest where br: "batches 500 (shuffle r X) = b # rest"
      "length b = min 500 (length (shuffle r X))"
    using batches_hd [of 500 "shuffle r X"] ne by auto
  have lb: "length b = 500" using br(2) B by (simp only: length_shuffle)
  have "last_batch_size (length X) = m"
    using assms(2) by (simp only: last_batch_size_def B m_def if_False)
  then have "length b \<noteq> last_batch_size (length X)" using lb m by simp
  moreover have "dataloader r (min 500 (length X)) X = b # rest"
    using br(1) by (simp only: dataloader_def B)
  ultimately show ?thesis by blast
qed

lemma for_each_growing:
  assumes "shaped d s" "stop s = 0" "\<forall>b\<in>set bs. rows d b"
  shows "\<exists>s'. for_each (train_batch w d) bs s = (s', None) \<and> shaped d s' \<and> stop s' = 0 \<and>
              trick_labels s' = (if bs = [] then trick_labels s
                                 else Some (ones (length (last bs)) 1)) \<and>
              advanced (length bs) (length bs) (length bs) s s'"
  using assms
proof (induction bs arbitrary: s)
  case Nil
  then show ?case by (simp add: advanced_refl)
next
  case (Cons b bs)
  from Cons.prems obtain s1 where s1: "train_batch w d b s = (s1, None)" "shaped d s1"
      "stop s1 = 0" "trick_labels s1 = Some (ones (length b) 1)" "advanced 1 1 1 s s1"
    using train_batch_growing [of d s b w] by auto
  from Cons.IH [OF s1(2,3)] Cons.prems obtain s2 where
    s2: "for_each (train_batch w d) bs s1 = (s2, None)" "shaped d s2" "stop s2 = 0"
      "trick_labels s2 = (if bs = [] then trick_labels s1 else Some (ones (length (last bs)) 1))"
      "advanced (length bs) (length bs) (length bs) s1 s2"
    by auto
  have "advanced (1 + length bs) (1 + length bs) (1 + length bs) s s2"
    using advanced_trans [OF s1(5) s2(5)] .
  then show ?case using s1 s2 by simp
qed

lemma for_each_frozen:
  assumes "shaped d s" "stop s \<noteq> 0" "trick_labels s = Some (ones c 1)"
    "\<forall>b\<in>set bs. rows d b \<and> length b = c"
  shows "\<exists>s'. for_each (train_batch w d) bs s = (s', None) \<and> shaped d s' \<and> stop s' = stop s \<and>
              trick_labels s' = trick_labels s \<and> gen s' = gen s \<and>
              advanced (length bs) (length bs) 0 s s'"
  using assms
proof (induction bs arbitrary: s)
  case Nil
  then show ?case by (simp add: advanced_refl)
next
  case (Cons b bs)
  from Cons.prems obtain s1 where s1: "train_batch w d b s = (s1, None)" "shaped d s1"
      "stop s1 = stop s" "trick_labels s1 = trick_labels s" "gen s1 = gen s" "advanced 1 1 0 s s1"
    using train_batch_frozen [of d s b w] by auto
  have "stop s1 \<noteq> 0" "trick_labels s1 = Some (ones c 1)" "\<forall>b\<in>set bs. rows d b \<and> length b = c"
    using s1 Cons.prems by simp_all
  from Cons.IH [OF s1(2) this] obtain s2 where
    s2: "for_each (train_batch w d) bs s1 = (s2, None)" "shaped d s2" "stop s2 = stop s1"
      "trick_labels s2 = trick_labels s1" "gen s2 = gen s1"
      "advanced (length bs) (length bs) 0 s1 s2"
    by auto
  have "advanced (1 + length bs) (1 + length bs) (0 + 0) s s2"
    using advanced_trans [OF s1(6) s2(6)] .
  then show ?case using s1 s2 by simp
qed

lemma for_each_stale_labels:
  assumes "shaped d s" "stop s \<noteq> 0" "trick_labels s = Some (ones c 1)"
    "rows d b" "length b \<noteq> c"
  shows "\<exists>s'. for_each (train_batch w d) (b # bs) s = (s', Some ValueError) \<and> shaped d s' \<and>
              stop s' = stop s \<and> trick_labels s' = trick_labels s \<and> gen s' = gen s \<and>
              advanced 1 0 0 s s'"
  using train_batch_stale_labels [OF assms(1,4,2,3,5), of w] by auto

section \<open>Epochs\<close>

lemma shaped_stop_update: "shaped d (s\<lparr>stop := x\<rparr>) = shaped d s"
  by (simp add: shaped_def)

lemma advanced_stop_update: "advanced a b c s (s'\<lparr>stop := x\<rparr>) = advanced a b c s s'"
  by (simp add: advanced_def)

lemma train_epoch_growing:
  assumes "X \<noteq> []" "rows d X" "shaped d s" "stop s = 0"
  shows "\<exists>s'. train_epoch w se d (min 500 (length X)) X e s = (s', None) \<and> shaped d s' \<and>
              stop s' = (if int e + 1 > se then 1 else 0) \<and>
              trick_labels s' = Some (ones (last_batch_size (length X)) 1) \<and>
              advanced (n_batches (length X)) (n_batches (length X)) (n_batches (length X)) s s'"
proof -
  let ?bs = "dataloader (randperm w e) (min 500 (length X)) X"
  have r: "\<forall>b\<in>set ?bs. rows d b" using dataloader_rows [OF assms(2)] by blast
  have ne: "?bs \<noteq> []" by (rule dataloader_not_Nil [OF assms(1)])
  have len: "length ?bs = n_batches (length X)" by (rule dataloader_length [OF assms(1)])
  have lst: "length (last ?bs) = last_batch_size (length X)" by (rule dataloader_last [OF assms(1)])
  from for_each_growing [OF assms(3,4) r, of w] obtain s1 where
    s1: "for_each (train_batch w d) ?bs s = (s1, None)" "shaped d s1" "stop s1 = 0"
      "trick_labels s1 = (if ?bs = [] then trick_labels s else Some (ones (length (last ?bs)) 1))"
      "advanced (length ?bs) (length ?bs) (length ?bs) s s1"
    by blast
  have t: "trick_labels s1 = Some (ones (last_batch_size (length X)) 1)"
    using s1(4) ne lst by simp
  have a: "advanced (n_batches (length X)) (n_batches (length X)) (n_batches (length X)) s s1"
    using s1(5) len by simp
  show ?thesis
    unfolding train_epoch_def using s1(1,2,3) t a
    by (simp add: shaped_stop_update advanced_stop_update del: One_nat_def)
qed

lemma train_epoch_frozen:
  assumes "X \<noteq> []" "rows d X" "shaped d s" "stop s = 1"
    "trick_labels s = Some (ones (last_batch_size (length X)) 1)"
    "length X \<le> 500 \<or> length X mod 500 = 0"
  shows "\<exists>s'. train_epoch w se d (min 500 (length X)) X e s = (s', None) \<and> shaped d s' \<and>
              stop s' = 1 \<and> trick_labels s' = trick_labels s \<and> gen s' = gen s \<and>
              advanced (n_batches (length X)) (n_batches (length X)) 0 s s'"
proof -
  let ?bs = "dataloader (randperm w e) (min 500 (length X)) X"
  have r: "\<forall>b\<in>set ?bs. rows d b \<and> length b = last_batch_size (length X)"
    using dataloader_rows [OF assms(2)] dataloader_uniform [OF assms(1,6)] by blast
  have len: "length ?bs = n_batches (length X)" by (rule dataloader_length [OF assms(1)])
  have st: "stop s \<noteq> 0" using assms(4) by simp
  from for_each_frozen [OF assms(3) st assms(5) r, of w] obtain s1 where
    s1: "for_each (train_batch w d) ?bs s = (s1, None)" "shaped d s1" "stop s1 = stop s"
      "trick_labels s1 = trick_labels s" "gen s1 = gen s"
      "advanced (length ?bs) (length ?bs) 0 s s1"
    by blast
  have a: "advanced (n_batches (length X)) (n_batches (length X)) 0 s s1"
    using s1(6) len by simp
  show ?thesis
    unfolding train_epoch_def using s1(1,2,3,4,5) a assms(4)
    by (simp add: shaped_stop_update advanced_stop_update del: One_nat_def)
qed

lemma train_epoch_stale_labels:
  assumes "rows d X" "shaped d s" "stop s = 1"
    "trick_labels s = Some (ones (last_batch_size (length X)) 1)"
    "500 < length X" "length X mod 500 \<noteq> 0"
  shows "\<exists>s'. train_epoch w se d (min 500 (length X)) X e s = (s', Some ValueError) \<and>
              shaped d s' \<and> stop s' = 1 \<and> trick_labels s' = trick_labels s \<and> gen s' = gen s \<and>
              advanced 1 0 0 s s'"
proof -
  let ?bs = "dataloader (randperm w e) (min 500 (length X)) X"
  obtain b rest where br: "?bs = b # rest" "length b \<noteq> last_batch_size (length X)"
    using dataloader_first [OF assms(5,6), of "randperm w e"] by blast
  have "b \<in> set ?bs" using br(1) by simp
  then have r: "rows d b" by (rule dataloader_rows [OF assms(1)])
  have st: "stop s \<noteq> 0" using assms(3) by simp
  from for_each_stale_labels [OF assms(2) st assms(4) r br(2), of w rest] obtain s1 where
    s1: "for_each (train_batch w d) (b # rest) s = (s1, Some ValueError)" "shaped d s1"
      "stop s1 = stop s" "trick_labels s1 = trick_labels s" "gen s1 = gen s" "advanced 1 0 0 s s1"
    by blast
  show ?thesis
    unfolding train_epoch_def br(1) using s1 assms(3) by simp
qed

lemma for_each_single: "for_each f [x] s = f x s"
  by (cases "f x s") (auto split: option.splits)

lemma epochs_loop_0: "epochs_loop w self X 0 = (train_start w self (length (hd X)) (length X), None)"
  by (simp add: epochs_loop_def)

lemma epochs_loop_Suc:
  assumes "epochs_loop w self X k = (s, None)"
  shows "epochs_loop w self X (Suc k) =
         train_epoch w (stop_epochs self) (length (hd X)) (min 500 (length X)) X k s"
proof -
  let ?f = "train_epoch w (stop_epochs self) (length (hd X)) (min 500 (length X)) X"
  have "[0..<Suc k] = [0..<k] @ [k]" by simp
  then have "epochs_loop w self X (Suc k) =
      (case epochs_loop w self X k of (s', None) \<Rightarrow> for_each ?f [k] s'
                                    | (s', Some e) \<Rightarrow> (s', Some e))"
    by (simp only: epochs_loop_def for_each_append)
  then show ?thesis using assms by (simp only: for_each_single prod.case option.case)
qed

lemma epochs_loop_raised:
  assumes "epochs_loop w self X k = (s, Some e)"
  shows "epochs_loop w self X (Suc k) = (s, Some e)"
  using assms by (simp add: epochs_loop_def for_each_append)



lemma shaped_train_start: "shaped d (train_start w self d n)"
  by (simp add: shaped_def train_start_def Generator_shaped_def Discriminator_shaped_def
      Generator_init_def Discriminator_init_def)

lemma check_array_Inr:
  assumes "check_array X = Inr Y"
  shows "Y = X" "X \<noteq> []" "rows (length (hd X)) X" "0 < length (hd X)"
  using assms by (auto simp: check_array_def rows_def split: if_splits)

lemma stop_flag_after:
  assumes "k \<le> nat se"
  shows "(int k + 1 > se) = (k = nat se)"
  using assms by (cases "se < 0") auto

lemma epochs_loop_growing:
  assumes "X \<noteq> []" "rows d X" "d = length (hd X)" "k \<le> Suc (nat (stop_epochs self))"
  shows "\<exists>s. epochs_loop w self X k = (s, None) \<and> shaped d s \<and>
             stop s = (if k = Suc (nat (stop_epochs self)) then 1 else 0) \<and>
             trick_labels s = (if k = 0 then None
                               else Some (ones (last_batch_size (length X)) 1)) \<and>
             advanced (k * n_batches (length X)) (k * n_batches (length X))
                      (k * n_batches (length X)) (train_start w self d (length X)) s"
  using assms(4)
proof (induction k)
  case 0
  show ?case
    using shaped_train_start [of d w self "length X"]
    by (simp add: epochs_loop_0 assms(3) advanced_refl train_start_def)
next
  case (Suc k)
  let ?s0 = "train_start w self d (length X)"
  let ?nb = "n_batches (length X)"
  from Suc obtain s where s: "epochs_loop w self X k = (s, None)" "shaped d s" "stop s = 0"
      "advanced (k * ?nb) (k * ?nb) (k * ?nb) ?s0 s"
    by auto
  from train_epoch_growing [OF assms(1,2) s(2,3), of w "stop_epochs self" k]
  obtain s' where s': "train_epoch w (stop_epochs self) d (min 500 (length X)) X k s = (s', None)"
      "shaped d s'" "stop s' = (if int k + 1 > stop_epochs self then 1 else 0)"
      "trick_labels s' = Some (ones (last_batch_size (length X)) 1)"
      "advanced ?nb ?nb ?nb s s'"
    by blast
  have run: "epochs_loop w self X (Suc k) = (s', None)"
    using epochs_loop_Suc [OF s(1)] s'(1) assms(3) by simp
  have "k \<le> nat (stop_epochs self)" using Suc.prems by simp
  then have st: "stop s' = (if Suc k = Suc (nat (stop_epochs self)) then 1 else 0)"
    using s'(3) stop_flag_after [of k "stop_epochs self"] by simp
  have adv: "advanced (Suc k * ?nb) (Suc k * ?nb) (Suc k * ?nb) ?s0 s'"
    using advanced_trans [OF s(4) s'(5)] by (simp add: add.commute)
  show ?case using run s'(2,4) st adv by simp
qed

lemma epochs_loop_frozen:
  assumes "X \<noteq> []" "rows d X" "d = length (hd X)" "Suc (nat (stop_epochs self)) \<le> k"
    "length X \<le> 500 \<or> length X mod 500 = 0"
  shows "\<exists>s. epochs_loop w self X k = (s, None) \<and> shaped d s \<and> stop s = 1 \<and>
             trick_labels s = Some (ones (last_batch_size (length X)) 1) \<and>
             gen s = gen (fst (epochs_loop w self X (Suc (nat (stop_epochs self))))) \<and>
             advanced (k * n_batches (length X)) (k * n_batches (length X))
                      (Suc (nat (stop_epochs self)) * n_batches (length X))
                      (train_start w self d (length X)) s"
  using assms(4)
proof (induction k rule: dec_induct)
  case base
  from epochs_loop_growing [OF assms(1,2,3) order_refl, where self = self and w = w]
  show ?case by auto
next
  case (step k)
  let ?s0 = "train_start w self d (length X)"
  let ?nb = "n_batches (length X)"
  let ?G = "Suc (nat (stop_epochs self))"
  from step.IH obtain s where s: "epochs_loop w self X k = (s, None)" "shaped d s" "stop s = 1"
      "trick_labels s = Some (ones (last_batch_size (length X)) 1)"
      "gen s = gen (fst (epochs_loop w self X ?G))"
      "advanced (k * ?nb) (k * ?nb) (?G * ?nb) ?s0 s"
    by blast
  from train_epoch_frozen [OF assms(1,2) s(2,3,4) assms(5), of w "stop_epochs self" k]
  obtain s' where s': "train_epoch w (stop_epochs self) d (min 500 (length X)) X k s = (s', None)"
      "shaped d s'" "stop s' = 1" "trick_labels s' = trick_labels s" "gen s' = gen s"
      "advanced ?nb ?nb 0 s s'"
    by blast
  have run: "epochs_loop w self X (Suc k) = (s', None)"
    using epochs_loop_Suc [OF s(1)] s'(1) assms(3) by simp
  have adv: "advanced (Suc k * ?nb) (Suc k * ?nb) (?G * ?nb) ?s0 s'"
    using advanced_trans [OF s(6) s'(6)] by (simp add: add.commute)
  show ?case using run s'(2,3,4,5) s(4,5) adv by simp
qed

lemma epochs_loop_stale_labels:
  assumes "rows d X" "d = length (hd X)" "Suc (nat (stop_epochs self)) < k"
    "500 < length X" "length X mod 500 \<noteq> 0"
  shows "\<exists>s. epochs_loop w self X k = (s, Some ValueError) \<and> shaped d s \<and>
             trick_labels s = Some (ones (last_batch_size (length X)) 1) \<and>
             gen s = gen (fst (epochs_loop w self X (Suc (nat (stop_epochs self))))) \<and>
             advanced (Suc (Suc (nat (stop_epochs self)) * n_batches (length X)))
                      (Suc (nat (stop_epochs self)) * n_batches (length X))
                      (Suc (nat (stop_epochs self)) * n_batches (length X))
                      (train_start w self d (length X)) s"
proof -
  let ?s0 = "train_start w self d (length X)"
  let ?nb = "n_batches (length X)"
  let ?G = "Suc (nat (stop_epochs self))"
  have ne: "X \<noteq> []" using assms(4) by auto
  from epochs_loop_growing [OF ne assms(1,2) order_refl, where self = self and w = w]
  obtain s where s: "epochs_loop w self X ?G = (s, None)" "shaped d s" "stop s = 1"
      "trick_labels s = Some (ones (last_batch_size (length X)) 1)"
      "advanced (?G * ?nb) (?G * ?nb) (?G * ?nb) ?s0 s"
    by auto
  from train_epoch_stale_labels [OF assms(1) s(2,3,4) assms(4,5), of w "stop_epochs self" ?G]
  obtain s' where s': "train_epoch w (stop_epochs self) d (min 500 (length X)) X ?G s
                        = (s', Some ValueError)"
      "shaped d s'" "trick_labels s' = trick_labels s" "gen s' = gen s" "advanced 1 0 0 s s'"
    by blast
  have run: "epochs_loop w self X (Suc ?G) = (s', Some ValueError)"
    using epochs_loop_Suc [OF s(1)] s'(1) assms(2) by simp
  have later: "epochs_loop w self X (Suc ?G + j) = (s', Some ValueError)" for j
    by (induction j) (simp_all add: run epochs_loop_raised)
  have "Suc ?G \<le> k" using assms(3) by simp
  then obtain j where "k = Suc ?G + j" using le_Suc_ex by blast
  then have runk: "epochs_loop w self X k = (s', Some ValueError)"
    by (simp only: later)
  have adv: "advanced (Suc (?G * ?nb)) (?G * ?nb) (?G * ?nb) ?s0 s'"
    using advanced_trans [OF s(5) s'(5)] by simp
  have g: "gen s' = gen (fst (epochs_loop w self X ?G))" using s'(4) s(1) by simp
  show ?thesis using runk s'(2,3) s(4) g adv by simp
qed

lemma optimizers_accepted:
  assumes "accepted self"
  shows "optimizers self
         = Inr (SGD_new (lr_d self) (momentum self), SGD_new (lr_g self) (momentum self))"
  using assms by (simp add: optimizers_def SGD_init_def and_then_def accepted_def not_less)

lemma optimizers_rejected:
  assumes "\<not> accepted self"
  shows "optimizers self = Inl ValueError"
  using assms by (auto simp: optimizers_def SGD_init_def and_then_def accepted_def not_le)

lemma epochs_run_accepted:
  assumes "accepted self"
  shows "epochs_run w self X k = epochs_loop w self X k"
  by (simp add: epochs_run_def optimizers_accepted [OF assms])

lemma epochs_run_rejected:
  assumes "\<not> accepted self"
  shows "epochs_run w self X k = (train_start w self (length (hd X)) (length X), Some ValueError)"
  by (simp add: epochs_run_def optimizers_rejected [OF assms])

lemma training_epochs_run:
  "training w self X = epochs_run w self X (nat (stop_epochs self * 3))"
  by (simp add: training_def epochs_run_def epochs_loop_def Let_def split: sum.splits)

lemma epochs_run_growing:
  assumes "accepted self" "X \<noteq> []" "rows d X" "d = length (hd X)"
    "k \<le> Suc (nat (stop_epochs self))"
  shows "\<exists>s. epochs_run w self X k = (s, None) \<and> shaped d s \<and>
             stop s = (if k = Suc (nat (stop_epochs self)) then 1 else 0) \<and>
             trick_labels s = (if k = 0 then None
                               else Some (ones (last_batch_size (length X)) 1)) \<and>
             advanced (k * n_batches (length X)) (k * n_batches (length X))
                      (k * n_batches (length X)) (train_start w self d (length X)) s"
  unfolding epochs_run_accepted [OF assms(1)] by (rule epochs_loop_growing [OF assms(2-5)])

lemma epochs_run_frozen:
  assumes "accepted self" "X \<noteq> []" "rows d X" "d = length (hd X)"
    "Suc (nat (stop_epochs self)) \<le> k" "length X \<le> 500 \<or> length X mod 500 = 0"
  shows "\<exists>s. epochs_run w self X k = (s, None) \<and> shaped d s \<and> stop s = 1 \<and>
             trick_labels s = Some (ones (last_batch_size (length X)) 1) \<and>
             gen s = gen (fst (epochs_run w self X (Suc (nat (stop_epochs self))))) \<and>
             advanced (k * n_batches (length X)) (k * n_batches (length X))
                      (Suc (nat (stop_epochs self)) * n_batches (length X))
                      (train_start w self d (length X)) s"
  unfolding epochs_run_accepted [OF assms(1)] by (rule epochs_loop_frozen [OF assms(2-6)])

lemma epochs_run_stale_labels:
  assumes "accepted self" "rows d X" "d = length (hd X)" "Suc (nat (stop_epochs self)) < k"
    "500 < length X" "length X mod 500 \<noteq> 0"
  shows "\<exists>s. epochs_run w self X k = (s, Some ValueError) \<and> shaped d s \<and>
             trick_labels s = Some (ones (last_batch_size (length X)) 1) \<and>
             gen s = gen (fst (epochs_run w self X (Suc (nat (stop_epochs self))))) \<and>
             advanced (Suc (Suc (nat (stop_epochs self)) * n_batches (length X)))
                      (Suc (nat (stop_epochs self)) * n_batches (length X))
                      (Suc (nat (stop_epochs self)) * n_batches (length X))
                      (train_start w self d (length X)) s"
  unfolding epochs_run_accepted [OF assms(1)] by (rule epochs_loop_stale_labels [OF assms(2-6)])

section \<open>The whole training loop\<close>

lemma ceiling_div_nat:
  assumes "0 < B"
  shows "\<lceil>real n / real B\<rceil> = int ((n + B - 1) div B)"
proof -
  define q where "q = (n + B - 1) div B"
  define r where "r = (n + B - 1) mod B"
  have "q * B + r = n + B - 1" by (simp add: q_def r_def)
  moreover have "r < B" using assms by (simp add: r_def)
  ultimately have nat1: "n \<le> q * B" and nat2: "q * B < n + B"
    using assms by linarith+
  have "real n \<le> real q * real B"
    using nat1 by (metis of_nat_le_iff of_nat_mult)
  then have up: "real n / real B \<le> real q"
    using assms by (simp add: pos_divide_le_eq)
  have "real q * real B < real n + real B"
    using nat2 by (metis of_nat_less_iff of_nat_mult of_nat_add)
  then have "(real q - 1) * real B < real n" by (simp add: algebra_simps)
  then have lo: "real q - 1 < real n / real B"
    using assms by (simp add: pos_less_divide_eq)
  have "\<lceil>real n / real B\<rceil> = int q"
    using up lo by (simp add: ceiling_eq_iff)
  then show ?thesis by (simp add: q_def)
qed

lemma ceiling_n_batches:
  assumes "0 < n"
  shows "\<lceil>real n / real (min 500 n)\<rceil> = int (n_batches n)"
proof -
  have "0 < min 500 n" using assms by simp
  then show ?thesis unfolding n_batches_def by (rule ceiling_div_nat)
qed

lemma length_ravel: "rows c t \<Longrightarrow> length (ravel t) = length t * c"
  by (induction t) (simp_all add: rows_def ravel_def)

lemma train_start_counters:
  assumes "advanced a b c (train_start w self d n) s"
  shows "length (history s ''discriminator_loss'') = a"
    "step_calls (optimizer_d s) = a"
    "length (history s ''generator_loss'') = b"
    "step_calls (optimizer_g s) = c"
  using assms by (simp_all add: advanced_def train_start_def SGD_new_def)

lemma training_completes:
  assumes "X \<noteq> []" "rows d X" "d = length (hd X)"
    "stop_epochs self \<le> 0 \<or> length X \<le> 500 \<or> length X mod 500 = 0"
    and acc: "accepted self"
  shows "\<exists>s. training w self X = (s, None) \<and> shaped d s \<and>
             length (history s ''discriminator_loss'')
               = nat (stop_epochs self * 3) * n_batches (length X) \<and>
             step_calls (optimizer_d s) = nat (stop_epochs self * 3) * n_batches (length X) \<and>
             length (history s ''generator_loss'')
               = nat (stop_epochs self * 3) * n_batches (length X) \<and>
             step_calls (optimizer_g s)
               = (if stop_epochs self \<le> 0 then 0
                  else Suc (nat (stop_epochs self)) * n_batches (length X))"
proof (cases "stop_epochs self \<le> 0")
  case True
  then have k: "nat (stop_epochs self * 3) = 0" by simp
  have "(0::nat) \<le> Suc (nat (stop_epochs self))" by simp
  from epochs_run_growing [OF acc assms(1,2,3) this, where w = w]
  obtain s where s: "epochs_run w self X 0 = (s, None)" "shaped d s"
      "advanced 0 0 0 (train_start w self d (length X)) s"
    by auto
  show ?thesis
    using s(1,2) train_start_counters [OF s(3)] True by (simp add: training_epochs_run k)
next
  case False
  then have le: "Suc (nat (stop_epochs self)) \<le> nat (stop_epochs self * 3)" by simp
  have u: "length X \<le> 500 \<or> length X mod 500 = 0" using assms(4) False by metis
  from epochs_run_frozen [OF acc assms(1,2,3) le u, where w = w]
  obtain s where s: "epochs_run w self X (nat (stop_epochs self * 3)) = (s, None)" "shaped d s"
      "advanced (nat (stop_epochs self * 3) * n_batches (length X))
                (nat (stop_epochs self * 3) * n_batches (length X))
                (Suc (nat (stop_epochs self)) * n_batches (length X))
                (train_start w self d (length X)) s"
    by blast
  show ?thesis
    using s(1,2) train_start_counters [OF s(3)] False by (simp add: training_epochs_run)
qed

lemma training_raises:
  assumes "rows d X" "d = length (hd X)" "1 \<le> stop_epochs self"
    "500 < length X" "length X mod 500 \<noteq> 0"
    and acc: "accepted self"
  shows "\<exists>s. training w self X = (s, Some ValueError) \<and> shaped d s \<and>
             trick_labels s = Some (ones (length X mod 500) 1) \<and>
             length (history s ''discriminator_loss'')
               = Suc (Suc (nat (stop_epochs self)) * n_batches (length X)) \<and>
             step_calls (optimizer_d s)
               = Suc (Suc (nat (stop_epochs self)) * n_batches (length X)) \<and>
             length (history s ''generator_loss'')
               = Suc (nat (stop_epochs self)) * n_batches (length X) \<and>
             step_calls (optimizer_g s) = Suc (nat (stop_epochs self)) * n_batches (length X)"
proof -
  have lt: "Suc (nat (stop_epochs self)) < nat (stop_epochs self * 3)" using assms(3) by simp
  have B: "min 500 (length X) = 500" using assms(4) by simp
  have L: "last_batch_size (length X) = length X mod 500"
    using assms(5) unfolding last_batch_size_def B by (simp only: if_False)
  from epochs_run_stale_labels [OF acc assms(1,2) lt assms(4,5), where w = w]
  obtain s where s: "epochs_run w self X (nat (stop_epochs self * 3)) = (s, Some ValueError)"
      "shaped d s" "trick_labels s = Some (ones (last_batch_size (length X)) 1)"
      "advanced (Suc (Suc (nat (stop_epochs self)) * n_batches (length X)))
                (Suc (nat (stop_epochs self)) * n_batches (length X))
                (Suc (nat (stop_epochs self)) * n_batches (length X))
                (train_start w self d (length X)) s"
    by blast
  show ?thesis
    using s(1,2,3) train_start_counters [OF s(4)] L by (simp add: training_epochs_run)
qed

section \<open>Fitting and scoring\<close>

lemma fit_rejected:
  assumes "check_array X = Inl e"
  shows "fit w X self = (self, Inl e)"
  using assms by (simp add: fit_def)

lemma accepted_classes: "accepted (self\<lparr>classes := c\<rparr>) = accepted self"
  by (simp add: accepted_def)

lemma fit_not_accepted:
  assumes "check_array X = Inr X" "\<not> accepted self"
  shows "snd (fit w X self) = Inl ValueError"
proof -
  let ?self1 = "self\<lparr>classes := Some (set_n_classes w)\<rparr>"
  have "\<not> accepted ?self1" using assms(2) by (simp add: accepted_classes)
  then have "training w ?self1 X
             = (train_start w ?self1 (length (hd X)) (length X), Some ValueError)"
    unfolding training_epochs_run by (rule epochs_run_rejected)
  then show ?thesis unfolding fit_def using assms(1) by (simp add: Let_def)
qed

lemma fit_completes:
  assumes "check_array X = Inr X"
    "stop_epochs self \<le> 0 \<or> length X \<le> 500 \<or> length X mod 500 = 0"
    and acc: "accepted self"
  shows "\<exists>s out. training w (self\<lparr>classes := Some (set_n_classes w)\<rparr>) X = (s, None) \<and>
           shaped (length (hd X)) s \<and>
           Discriminator_forward (disc s) X = Inr out \<and> length out = length X \<and> rows 1 out \<and>
           snd (fit w X self) = Inr () \<and>
           discriminator (fst (fit w X self)) = Some (disc s) \<and>
           generator (fst (fit w X self)) = Some (gen s) \<and>
           train_history (fst (fit w X self)) = Some (history s) \<and>
           decision_scores (fst (fit w X self)) = Some (ravel out) \<and>
           length (history s ''discriminator_loss'')
             = nat (stop_epochs self * 3) * n_batches (length X) \<and>
           length (history s ''generator_loss'')
             = nat (stop_epochs self * 3) * n_batches (length X)"
proof -
  let ?self1 = "self\<lparr>classes := Some (set_n_classes w)\<rparr>"
  note v = check_array_Inr [OF assms(1)]
  have c: "stop_epochs ?self1 \<le> 0 \<or> length X \<le> 500 \<or> length X mod 500 = 0"
    using assms(2) by simp
  have acc1: "accepted ?self1" using acc by (simp add: accepted_classes)
  from training_completes [OF v(2,3) refl c acc1, of w]
  obtain s where s: "training w ?self1 X = (s, None)" "shaped (length (hd X)) s"
      "length (history s ''discriminator_loss'')
         = nat (stop_epochs ?self1 * 3) * n_batches (length X)"
      "length (history s ''generator_loss'')
         = nat (stop_epochs ?self1 * 3) * n_batches (length X)"
    by blast
  from s(2) have "Discriminator_shaped (length (hd X)) (disc s)" by (simp add: shaped_def)
  from Discriminator_forward_rows [OF this v(3)]
  obtain out where out: "Discriminator_forward (disc s) X = Inr out" "length out = length X"
      "rows 1 out"
    by blast
  have f: "fit w X self =
      ((store s ?self1)\<lparr>decision_scores := Some (ravel out),
          threshold := Some (fst (process_decision_scores w (ravel out) (contamination ?self1))),
          labels := Some (snd (process_decision_scores w (ravel out) (contamination ?self1)))\<rparr>,
       Inr ())"
    unfolding fit_def using assms(1) s(1) out(1) by (simp add: Let_def)
  show ?thesis
    using s out by (simp add: f store_def del: One_nat_def)
qed

lemma fit_raises:
  assumes "check_array X = Inr X" "1 \<le> stop_epochs self"
    "500 < length X" "length X mod 500 \<noteq> 0"
    and acc: "accepted self"
  shows "\<exists>s. training w (self\<lparr>classes := Some (set_n_classes w)\<rparr>) X = (s, Some ValueError) \<and>
           shaped (length (hd X)) s \<and>
           trick_labels s = Some (ones (length X mod 500) 1) \<and>
           length (history s ''discriminator_loss'')
             = Suc (Suc (nat (stop_epochs self)) * n_batches (length X)) \<and>
           length (history s ''generator_loss'')
             = Suc (nat (stop_epochs self)) * n_batches (length X) \<and>
           snd (fit w X self) = Inl ValueError \<and>
           discriminator (fst (fit w X self)) = Some (disc s) \<and>
           train_history (fst (fit w X self)) = Some (history s) \<and>
           decision_scores (fst (fit w X self)) = decision_scores self"
proof -
  let ?self1 = "self\<lparr>classes := Some (set_n_classes w)\<rparr>"
  note v = check_array_Inr [OF assms(1)]
  have c: "1 \<le> stop_epochs ?self1" using assms(2) by simp
  have acc1: "accepted ?self1" using acc by (simp add: accepted_classes)
  from training_raises [OF v(3) refl c assms(3,4) acc1, of w]
  obtain s where s: "training w ?self1 X = (s, Some ValueError)" "shaped (length (hd X)) s"
      "trick_labels s = Some (ones (length X mod 500) 1)"
      "length (history s ''discriminator_loss'')
         = Suc (Suc (nat (stop_epochs ?self1)) * n_batches (length X))"
      "length (history s ''generator_loss'')
         = Suc (nat (stop_epochs ?self1)) * n_batches (length X)"
    by blast
  have f: "fit w X self = (store s ?self1, Inl ValueError)"
    unfolding fit_def using assms(1) s(1) by (simp add: Let_def)
  show ?thesis
    using s by (simp add: f store_def del: One_nat_def)
qed

lemma fit_returns:
  assumes "snd (fit w X self) = Inr ()"
  shows "check_array X = Inr X"
    "stop_epochs self \<le> 0 \<or> length X \<le> 500 \<or> length X mod 500 = 0"
    "accepted self"
proof -
  show v: "check_array X = Inr X"
  proof (cases "check_array X")
    case (Inl e)
    then show ?thesis using assms fit_rejected [OF Inl, of w self] by simp
  next
    case (Inr Y)
    then show ?thesis using check_array_Inr(1) [OF Inr] by simp
  qed
  show acc: "accepted self"
  proof (rule ccontr)
    assume "\<not> accepted self"
    from fit_not_accepted [OF v this, of w] show False using assms by simp
  qed
  show "stop_epochs self \<le> 0 \<or> length X \<le> 500 \<or> length X mod 500 = 0"
  proof (rule ccontr)
    assume n: "\<not> (stop_epochs self \<le> 0 \<or> length X \<le> 500 \<or> length X mod 500 = 0)"
    then have "1 \<le> stop_epochs self" "500 < length X" "length X mod 500 \<noteq> 0" by simp_all
    from fit_raises [OF v this acc, of w] have "snd (fit w X self) = Inl ValueError" by blast
    then show False using assms by simp
  qed
qed

lemma decision_function_fitted:
  assumes "discriminator self = Some D" "Discriminator_shaped (length (hd X)) D"
    "check_array X = Inr X"
  shows "\<exists>out. Discriminator_forward D X = Inr out \<and> length out = length X \<and> rows 1 out \<and>
               decision_function X self = Inr (ravel out)"
proof -
  note v = check_array_Inr [OF assms(3)]
  from Discriminator_forward_rows [OF assms(2) v(3)]
  obtain out where out: "Discriminator_forward D X = Inr out" "length out = length X" "rows 1 out"
    by blast
  have "decision_function X self = Inr (ravel out)"
    by (simp add: decision_function_def assms(1,3) and_then_def out(1))
  then show ?thesis using out by blast
qed

lemma decision_function_mismatch:
  assumes "discriminator self = Some D" "Discriminator_shaped d D"
    "check_array X = Inr X" "length (hd X) \<noteq> d"
  shows "Linear_forward (d_layer1 D) X = Inl RuntimeError"
    "decision_function X self = Inl RuntimeError"
proof -
  note v = check_array_Inr [OF assms(3)]
  have "hd X \<in> set X" using v(2) by simp
  then have nr: "\<not> rows d X" using assms(4) by (auto simp: rows_def list_all_iff)
  have i: "in_features (d_layer1 D) = d" using assms(2) by (simp add: Discriminator_shaped_def)
  show "Linear_forward (d_layer1 D) X = Inl RuntimeError"
    using Linear_forward_mismatch [of "d_layer1 D" X] nr i by simp
  have "Discriminator_forward D X = Inl RuntimeError"
    by (rule Discriminator_forward_mismatch [OF assms(2) nr])
  then show "decision_function X self = Inl RuntimeError"
    by (simp add: decision_function_def assms(1,3) and_then_def)
qed

lemma check_array_replicate:
  assumes "0 < n"
  shows "check_array (replicate n [0]) = Inr (replicate n [0])"
  using assms by (simp add: check_array_def list_all_iff)

lemma n_batches_1: "n_batches 1 = 1"
  by (simp add: n_batches_def)

lemma n_batches_2: "n_batches 2 = 1"
  by (simp add: n_batches_def)

lemma n_batches_501: "n_batches 501 = 2"
  by (simp add: n_batches_def)

lemma stop_epochs_detector: "stop_epochs (detector se) = se"
  by (simp add: detector_def SO_GAAL_init_def)

lemma accepted_detector: "accepted (detector se)"
  by (simp add: detector_def SO_GAAL_init_def accepted_def)

lemma discriminator_detector: "discriminator (detector se) = None"
  by (simp add: detector_def SO_GAAL_init_def)

section \<open>Batches that meet stale labels\<close>

lemma Linear_forward_length: "Linear_forward l x = Inr y \<Longrightarrow> length y = length x"
  by (auto simp: Linear_forward_def split: if_splits)

lemma Generator_forward_length:
  assumes "Generator_forward g x = Inr y"
  shows "length y = length x"
proof -
  from assms obtain x1 x2 where "Linear_forward (g_layer1 g) x = Inr x1"
      "Linear_forward (g_layer2 g) (map_tensor relu x1) = Inr x2" "y = map_tensor relu x2"
    by (auto simp: Generator_forward_def and_then_def split: sum.splits)
  then show ?thesis
    using Linear_forward_length [of "g_layer1 g" x x1]
      Linear_forward_length [of "g_layer2 g" "map_tensor relu x1" x2]
    by (simp add: length_map_tensor)
qed

lemma Discriminator_forward_length:
  assumes "Discriminator_forward c x = Inr y"
  shows "length y = length x"
proof -
  from assms obtain x1 x2 where "Linear_forward (d_layer1 c) x = Inr x1"
      "Linear_forward (d_layer2 c) (map_tensor relu x1) = Inr x2" "y = map_tensor sigmoid x2"
    by (auto simp: Discriminator_forward_def and_then_def split: sum.splits)
  then show ?thesis
    using Linear_forward_length [of "d_layer1 c" x x1]
      Linear_forward_length [of "d_layer2 c" "map_tensor relu x1" x2]
    by (simp add: length_map_tensor)
qed

lemma generator_loss_stale:
  assumes "length t \<noteq> length noise"
  shows "\<exists>e. generator_loss s noise (Some t) = Inl e"
proof (cases "Generator_forward (gen s) noise")
  case (Inl e)
  then show ?thesis by (simp add: generator_loss_def and_then_def)
next
  case g: (Inr generated)
  show ?thesis
  proof (cases "Discriminator_forward (disc s) generated")
    case (Inl e)
    then show ?thesis using g by (simp add: generator_loss_def and_then_def)
  next
    case (Inr outputs)
    have "length outputs = length noise"
      using Discriminator_forward_length [OF Inr] Generator_forward_length [OF g] by simp
    then have "BCELoss outputs t = Inl ValueError"
      using assms by (intro BCELoss_mismatch) simp
    then show ?thesis using g Inr by (simp add: generator_loss_def and_then_def)
  qed
qed

lemma train_batch_stale_any:
  assumes "stop s \<noteq> 0" "trick_labels s = Some t" "length t \<noteq> length b"
  shows "snd (train_batch w d b s) \<noteq> None"
    "history (fst (train_batch w d b s)) ''generator_loss'' = history s ''generator_loss''"
proof -
  let ?noise = "rand_tensor w (draws s) (length b) d"
  let ?s0 = "s\<lparr>draws := Suc (draws s)\<rparr>"
  have both: "snd (train_batch w d b s) \<noteq> None \<and>
      history (fst (train_batch w d b s)) ''generator_loss'' = history s ''generator_loss''"
  proof (cases "discriminator_loss ?s0 b ?noise")
    case (Inl e)
    then show ?thesis by (simp add: train_batch_def Let_def)
  next
    case (Inr v)
    let ?g = "d_loss_grad w (disc ?s0) (gen ?s0) b ?noise"
    let ?s1 = "?s0\<lparr>disc := Discriminator_step (optimizer_d ?s0) ?g (disc ?s0),
                   optimizer_d := SGD_state (optimizer_d ?s0) ?g,
                   history := append_history ''discriminator_loss'' v (history ?s0)\<rparr>"
    have n: "length t \<noteq> length ?noise" using assms(3) by (simp add: length_rand_tensor)
    obtain e where e: "generator_loss ?s1 ?noise (Some t) = Inl e"
      using generator_loss_stale [OF n, of ?s1] by blast
    have "train_generator w ?noise (length b) ?s1 = Inl e"
      unfolding train_generator_def using assms(1,2) e by (simp add: and_then_def)
    then have "train_batch w d b s = (?s1, Some e)"
      unfolding train_batch_def Let_def using Inr by simp
    then show ?thesis by (simp add: append_history_def)
  qed
  show "snd (train_batch w d b s) \<noteq> None" using both by blast
  show "history (fst (train_batch w d b s)) ''generator_loss'' = history s ''generator_loss''"
    using both by blast
qed

lemma dataloader_first_500:
  assumes "500 < length X"
  shows "\<exists>b rest. dataloader r (min 500 (length X)) X = b # rest \<and> length b = 500"
proof -
  have B: "min 500 (length X) = 500" using assms by simp
  have ne: "shuffle r X \<noteq> []" using assms length_shuffle [of r X] by auto
  obtain b rest where br: "batches 500 (shuffle r X) = b # rest"
      "length b = min 500 (length (shuffle r X))"
    using batches_hd [of 500 "shuffle r X"] ne by auto
  have "length b = 500" using br(2) B by (simp only: length_shuffle)
  moreover have "dataloader r (min 500 (length X)) X = b # rest"
    using br(1) by (simp only: dataloader_def B)
  ultimately show ?thesis by blast
qed

section \<open>The Generator before training\<close>

lemma sum_list_eye:
  "sum_list (map (\<lambda>i. eye j i * f i) [0..<n]) = (if j < n then f j else 0)"
  by (induction n) (auto simp: eye_def less_Suc_eq)

lemma Linear_forward_zeros:
  "Linear_forward l (zeros b (in_features l)) =
     Inr (replicate b (map (bias l) [0..<out_features l]))"
proof -
  have z: "(\<Sum>i\<leftarrow>[0..<n]. c i * replicate n (0::real) ! i) = 0" for c n
  proof -
    have "(\<Sum>i\<leftarrow>[0..<n]. c i * replicate n (0::real) ! i) = (\<Sum>i\<leftarrow>[0..<n]. 0)"
      by (rule arg_cong [where f = sum_list], rule map_cong) auto
    then show ?thesis by simp
  qed
  show ?thesis
    by (simp add: Linear_forward_def zeros_def list_all_iff z)
qed

lemma Generator_forward_zeros:
  "Generator_forward (Generator_init w d) (zeros b d) =
     Inr (replicate b (map (\<lambda>j. relu (relu (generator_bias1 w j) + generator_bias2 w j))
                           [0..<d]))"
proof -
  let ?G = "Generator_init w d"
  have 1: "Linear_forward (g_layer1 ?G) (zeros b d)
           = Inr (replicate b (map (generator_bias1 w) [0..<d]))"
    using Linear_forward_zeros [of "g_layer1 ?G" b] by (simp add: Generator_init_def)
  have 2: "Linear_forward (g_layer2 ?G)
             (replicate b (map (\<lambda>j. relu (generator_bias1 w j)) [0..<d]))
         = Inr (replicate b (map (\<lambda>j. relu (generator_bias1 w j) + generator_bias2 w j)
                                 [0..<d]))"
    by (simp add: Linear_forward_def Generator_init_def list_all_iff sum_list_eye)
  show ?thesis
    by (simp add: Generator_forward_def and_then_def 1 2 map_tensor_def comp_def)
qed

lemma map_upt_eq_replicate:
  "(map f [0..<d] = replicate d (0::real)) = (\<forall>j<d. f j = 0)"
  by (auto simp: list_eq_iff_nth_eq)

text \<open>
  Claim C4, as amended. A freshly constructed Generator of width \<open>d\<close> (both weights the
  identity, biases as drawn at construction) maps an all-zero latent batch of \<open>b\<close> rows
  to \<open>b\<close> rows that each hold \<open>relu (relu b1 + b2)\<close> of the two bias vectors; the
  output is all-zero exactly when the batch is empty or \<open>relu (b1 j) + b2 j \<le> 0\<close> at
  every position \<open>j\<close>, as with zero biases.
\<close>

theorem Generator_forward_zero_latent:
  "Generator_forward (Generator_init w d) (zeros b d) =
     Inr (replicate b (map (\<lambda>j. relu (relu (generator_bias1 w j) + generator_bias2 w j))
                           [0..<d])) \<and>
   (Generator_forward (Generator_init w d) (zeros b d) = Inr (zeros b d)) =
     (b = 0 \<or> (\<forall>j<d. relu (generator_bias1 w j) + generator_bias2 w j \<le> 0))"
proof -
  have "(replicate b (map (\<lambda>j. relu (relu (generator_bias1 w j) + generator_bias2 w j)) [0..<d])
         = zeros b d)
        = (b = 0 \<or> (\<forall>j<d. relu (relu (generator_bias1 w j) + generator_bias2 w j) = 0))"
    unfolding zeros_def replicate_eq_replicate map_upt_eq_replicate by auto
  moreover have "(relu x = 0) = (x \<le> 0)" for x by (auto simp: relu_def)
  ultimately show ?thesis by (simp add: Generator_forward_zeros)
qed

text \<open>With both biases zero the output is all-zero.\<close>

theorem Generator_forward_zero_latent_witness:
  "relu (generator_bias1 zero_bias_env 0) + generator_bias2 zero_bias_env 0 \<le> 0 \<and>
   Generator_forward (Generator_init zero_bias_env 1) (zeros 1 1) = Inr (zeros 1 1)"
  using Generator_forward_zero_latent [of zero_bias_env 1 1]
  by (simp add: relu_def zeros_def zero_bias_env_def)

text \<open>
  Claim C4 as stated fails: with the biases \<open>1/2\<close> and \<open>1/4\<close> the all-zero latent
  vector is mapped to \<open>3/4\<close>.
\<close>

theorem Generator_forward_zero_latent_counterexample:
  "Generator_forward (Generator_init demo_env 1) (zeros 1 1) \<noteq> Inr (zeros 1 1)"
proof -
  have "Generator_forward (Generator_init demo_env 1) (zeros 1 1) = Inr [[3 / 4]]"
    unfolding Generator_forward_zeros by (simp add: relu_def demo_env_def)
  then show ?thesis by (simp add: zeros_def)
qed

section \<open>The two phases of training\<close>

lemma valid_single: "[[0::real]] \<noteq> []" "rows 1 [[0::real]]" "1 = length (hd [[0::real]])"
  by (simp_all add: rows_def)

text \<open>
  Claim C1 (the code departs from it). The claim puts the end of the growing phase at
  epoch index \<open>stop_epochs\<close>; the loop sets \<open>stop\<close> only after an epoch whose index
  plus one exceeds \<open>stop_epochs\<close>, so the epoch of index \<open>stop_epochs\<close> still trains the
  Generator. With \<open>stop_epochs = 1\<close> and the one-sample dataset \<open>[[0]]\<close>: after the first
  epoch \<open>stop\<close> is still \<open>0\<close> and \<open>optimizer_g\<close> has taken one step, and during the
  epoch of index \<open>1\<close> it takes a second one.
\<close>

theorem generator_step_in_epoch_stop_epochs:
  "snd (epochs_run w (detector 1) [[0]] 2) = None \<and>
   stop (fst (epochs_run w (detector 1) [[0]] 1)) = 0 \<and>
   step_calls (optimizer_g (fst (epochs_run w (detector 1) [[0]] 1))) = 1 \<and>
   step_calls (optimizer_g (fst (epochs_run w (detector 1) [[0]] 2))) = 2"
proof -
  let ?s0 = "train_start w (detector 1) 1 (length [[0::real]])"
  have G: "Suc (nat (stop_epochs (detector 1))) = 2" by (simp add: stop_epochs_detector)
  have k1: "1 \<le> Suc (nat (stop_epochs (detector 1)))" by (simp add: G)
  have k2: "2 \<le> Suc (nat (stop_epochs (detector 1)))" by (simp add: G)
  have nb: "n_batches (length [[0::real]]) = 1" by (simp add: n_batches_def)
  from epochs_run_growing [OF accepted_detector valid_single k1, where w = w]
  obtain s1 where s1: "epochs_run w (detector 1) [[0]] 1 = (s1, None)"
      "stop s1 = (if (1::nat) = Suc (nat (stop_epochs (detector 1))) then 1 else 0)"
      "advanced (1 * n_batches (length [[0::real]])) (1 * n_batches (length [[0::real]]))
                (1 * n_batches (length [[0::real]])) ?s0 s1"
    by blast
  from epochs_run_growing [OF accepted_detector valid_single k2, where w = w]
  obtain s2 where s2: "epochs_run w (detector 1) [[0]] 2 = (s2, None)"
      "advanced (2 * n_batches (length [[0::real]])) (2 * n_batches (length [[0::real]]))
                (2 * n_batches (length [[0::real]])) ?s0 s2"
    by blast
  have c1: "step_calls (optimizer_g s1) = 1"
    using train_start_counters(4) [OF s1(3)] by (simp only: nb mult_1)
  have c2: "step_calls (optimizer_g s2) = 2"
    using train_start_counters(4) [OF s2(2)] by (simp only: nb mult_1_right)
  have st: "stop s1 = 0" using s1(2) by (simp add: G)
  show ?thesis
    using s1(1) s2(1) c1 c2 st by simp
qed

lemma valid_501:
  "check_array (replicate 501 [0]) = Inr (replicate 501 [0])"
  "500 < length (replicate 501 [0::real])"
  "length (replicate 501 [0::real]) mod 500 \<noteq> 0"
  by (simp_all add: check_array_replicate)

text \<open>
  Claim C2 (the code departs from it). In a frozen-phase batch the Discriminator is
  updated and its loss recorded, but the generator loss is computed against the labels
  left by the last growing-phase batch. With \<open>stop_epochs = 1\<close> and 501 samples the first
  frozen-phase batch has 500 rows and the labels have one: the criterion raises, no
  generator loss is recorded for that batch (five discriminator losses, four generator
  losses), and \<open>fit\<close> ends with the exception.
\<close>

theorem frozen_batch_raises_with_stale_labels:
  "snd (fit w (replicate 501 [0]) (detector 1)) = Inl ValueError \<and>
   (\<exists>h. train_history (fst (fit w (replicate 501 [0]) (detector 1))) = Some h \<and>
        length (h ''discriminator_loss'') = 5 \<and> length (h ''generator_loss'') = 4)"
proof -
  have se: "1 \<le> stop_epochs (detector 1)" by (simp add: stop_epochs_detector)
  from fit_raises [OF valid_501(1) se valid_501(2,3) accepted_detector, of w]
  show ?thesis by (auto simp: stop_epochs_detector n_batches_501)
qed

text \<open>
  Claim C3, as amended. In a frozen-phase batch the generator loss is computed against
  the labels left bound by the last growing-phase batch. For a run with
  \<open>stop_epochs \<ge> 1\<close> on a valid dataset of more than 500 samples whose count \<open>n\<close> is not
  a multiple of 500: if the Generator's training epochs complete, \<open>stop\<close> is set and the
  labels left bound have \<open>n mod 500\<close> rows; the first batch of every epoch has 500 rows;
  a batch of the frozen phase whose size differs from that of the bound labels always
  raises and records no generator loss; and \<open>fit\<close> does not complete.
\<close>

theorem stale_labels_raise:
  assumes "check_array X = Inr X" "1 \<le> stop_epochs self"
    "500 < length X" "length X mod 500 \<noteq> 0"
  shows "snd (fit w X self) \<noteq> Inr () \<and>
    (\<forall>s. epochs_run w self X (Suc (nat (stop_epochs self))) = (s, None) \<longrightarrow>
         stop s = 1 \<and> trick_labels s = Some (ones (length X mod 500) 1)) \<and>
    (\<forall>r. \<exists>b rest. dataloader r (min 500 (length X)) X = b # rest \<and> length b = 500) \<and>
    (\<forall>s t b. stop s \<noteq> 0 \<and> trick_labels s = Some t \<and> length t \<noteq> length b \<longrightarrow>
         snd (train_batch w (length (hd X)) b s) \<noteq> None \<and>
         history (fst (train_batch w (length (hd X)) b s)) ''generator_loss''
           = history s ''generator_loss'')"
proof -
  note v = check_array_Inr [OF assms(1)]
  have a: "snd (fit w X self) \<noteq> Inr ()"
  proof (cases "accepted self")
    case True
    from fit_raises [OF assms True, of w] show ?thesis by auto
  next
    case False
    from fit_not_accepted [OF assms(1) False, of w] show ?thesis by simp
  qed
  have B: "min 500 (length X) = 500" using assms(3) by simp
  have L: "last_batch_size (length X) = length X mod 500"
    using assms(4) unfolding last_batch_size_def B by (simp only: if_False)
  have b: "stop s = 1 \<and> trick_labels s = Some (ones (length X mod 500) 1)"
    if run: "epochs_run w self X (Suc (nat (stop_epochs self))) = (s, None)" for s
  proof (cases "accepted self")
    case True
    from epochs_run_growing [OF True v(2,3) refl order_refl, where w = w]
    show ?thesis using run L by auto
  next
    case False
    from epochs_run_rejected [OF False, of w X] show ?thesis using run by simp
  qed
  have c: "\<exists>b rest. dataloader r (min 500 (length X)) X = b # rest \<and> length b = 500" for r
    by (rule dataloader_first_500 [OF assms(3)])
  have d: "snd (train_batch w (length (hd X)) b s) \<noteq> None \<and>
           history (fst (train_batch w (length (hd X)) b s)) ''generator_loss''
             = history s ''generator_loss''"
    if "stop s \<noteq> 0 \<and> trick_labels s = Some t \<and> length t \<noteq> length b" for s t b
    using train_batch_stale_any [of s t b w "length (hd X)"] that by blast
  show ?thesis using a b c d by blast
qed

theorem stale_labels_raise_witness:
  "check_array (replicate 501 [0]) = Inr (replicate 501 [0]) \<and>
   1 \<le> stop_epochs (detector 1) \<and>
   500 < length (replicate 501 [0::real]) \<and>
   length (replicate 501 [0::real]) mod 500 \<noteq> 0 \<and>
   snd (fit demo_env (replicate 501 [0]) (detector 1)) \<noteq> Inr ()"
proof -
  have se: "1 \<le> stop_epochs (detector 1)" by (simp add: stop_epochs_detector)
  from stale_labels_raise [OF valid_501(1) se valid_501(2,3), of demo_env]
  show ?thesis using valid_501 se by blast
qed

text \<open>
  Claim C3 as stated fails without a frozen phase: with \<open>stop_epochs = 0\<close> the loop runs
  no epoch, and \<open>fit\<close> completes on 501 samples.
\<close>

theorem stale_labels_raise_counterexample:
  "500 < length (replicate 501 [0::real]) \<and>
   length (replicate 501 [0::real]) mod 500 \<noteq> 0 \<and>
   snd (fit demo_env (replicate 501 [0]) (detector 0)) = Inr ()"
proof -
  have "stop_epochs (detector 0) \<le> 0 \<or> length (replicate 501 [0::real]) \<le> 500
        \<or> length (replicate 501 [0::real]) mod 500 = 0"
    by (simp add: stop_epochs_detector)
  from fit_completes [OF valid_501(1) this accepted_detector, of demo_env]
  show ?thesis using valid_501(2,3) by blast
qed

section \<open>History and scores\<close>

lemma valid_pair:
  "check_array [[0], [10]] = Inr [[0], [10]]"
  "length [[0::real], [10]] \<le> 500"
  by (simp_all add: check_array_def)

lemma valid_one:
  "check_array [[0]] = Inr [[0]]"
  "length [[0::real]] \<le> 500"
  by (simp_all add: check_array_def)

lemma fit_demo_returns:
  assumes "check_array X = Inr X" "length X \<le> 500"
  shows "snd (fit w X (detector se)) = Inr ()"
proof -
  have "stop_epochs (detector se) \<le> 0 \<or> length X \<le> 500 \<or> length X mod 500 = 0"
    using assms(2) by simp
  from fit_completes [OF assms(1) this accepted_detector, of w] show ?thesis by blast
qed

text \<open>
  Claim C5, as amended. When \<open>fit\<close> completes on \<open>n\<close> samples, the sequences
  \<open>discriminator_loss\<close> and \<open>generator_loss\<close> of the training history both have length
  \<open>max 0 (3 * stop_epochs) * \<lceil>n / min 500 n\<rceil>\<close>: one entry per batch and metric, and no
  epoch at all when \<open>stop_epochs\<close> is not positive.
\<close>

theorem train_history_lengths:
  assumes "snd (fit w X self) = Inr ()"
  shows "\<exists>h. train_history (fst (fit w X self)) = Some h \<and>
           int (length (h ''discriminator_loss''))
             = max 0 (3 * stop_epochs self) * \<lceil>real (length X) / real (min 500 (length X))\<rceil> \<and>
           int (length (h ''generator_loss''))
             = max 0 (3 * stop_epochs self) * \<lceil>real (length X) / real (min 500 (length X))\<rceil>"
proof -
  note r = fit_returns [OF assms]
  have pos: "0 < length X" using check_array_Inr(2) [OF r(1)] by simp
  from fit_completes [OF r, of w]
  obtain s :: train where s: "train_history (fst (fit w X self)) = Some (history s)"
      "length (history s ''discriminator_loss'')
         = nat (stop_epochs self * 3) * n_batches (length X)"
      "length (history s ''generator_loss'')
         = nat (stop_epochs self * 3) * n_batches (length X)"
    by blast
  have e: "int (nat (stop_epochs self * 3) * n_batches (length X))
           = max 0 (3 * stop_epochs self) * \<lceil>real (length X) / real (min 500 (length X))\<rceil>"
    by (simp add: ceiling_n_batches [OF pos] max_def mult.commute)
  show ?thesis using s e by simp
qed

theorem train_history_lengths_witness:
  "snd (fit demo_env [[0], [10]] (detector 2)) = Inr () \<and>
   (\<exists>h. train_history (fst (fit demo_env [[0], [10]] (detector 2))) = Some h \<and>
        length (h ''discriminator_loss'') = 6 \<and> length (h ''generator_loss'') = 6)"
proof -
  have r: "snd (fit demo_env [[0], [10]] (detector 2)) = Inr ()"
    by (rule fit_demo_returns [OF valid_pair])
  have c: "\<lceil>real (length [[0::real], [10]]) / real (min 500 (length [[0::real], [10]]))\<rceil> = 1"
    by simp
  have m: "max 0 (3 * stop_epochs (detector 2)) = 6" by (simp add: stop_epochs_detector)
  from train_history_lengths [OF r]
  obtain h where h: "train_history (fst (fit demo_env [[0], [10]] (detector 2))) = Some h"
      "int (length (h ''discriminator_loss'')) = 6" "int (length (h ''generator_loss'')) = 6"
    unfolding c m by auto
  show ?thesis using r h by auto
qed

text \<open>
  Claim C5 as stated fails for a negative \<open>stop_epochs\<close>: \<open>range\<close> of a negative number is
  empty, \<open>fit\<close> completes with an empty history, and the claimed length is negative.
\<close>

theorem train_history_lengths_counterexample:
  "snd (fit demo_env [[0]] (detector (- 1))) = Inr () \<and>
   int (length (the (train_history (fst (fit demo_env [[0]] (detector (- 1)))))
                    ''discriminator_loss''))
     \<noteq> 3 * stop_epochs (detector (- 1))
         * \<lceil>real (length [[0::real]]) / real (min 500 (length [[0::real]]))\<rceil>"
proof -
  have r: "snd (fit demo_env [[0]] (detector (- 1))) = Inr ()"
    by (rule fit_demo_returns [OF valid_one])
  have "3 * stop_epochs (detector (- 1))
          * \<lceil>real (length [[0::real]]) / real (min 500 (length [[0::real]]))\<rceil> < 0"
    by (simp add: stop_epochs_detector)
  then show ?thesis using r by simp
qed

text \<open>
  Claim C8. When \<open>fit\<close> completes on \<open>X\<close>, the stored scores are the flattened output of
  one forward pass of the Discriminator, as the training loop left it, over the whole of
  \<open>X\<close>, and there is one score per sample.
\<close>

theorem decision_scores_length:
  assumes "snd (fit w X self) = Inr ()"
  shows "\<exists>out. Discriminator_forward
                 (disc (fst (training w (self\<lparr>classes := Some (set_n_classes w)\<rparr>) X))) X
               = Inr out \<and>
               decision_scores (fst (fit w X self)) = Some (ravel out) \<and>
               length (ravel out) = length X"
proof -
  note r = fit_returns [OF assms]
  from fit_completes [OF r, of w]
  obtain s out where s: "training w (self\<lparr>classes := Some (set_n_classes w)\<rparr>) X = (s, None)"
      "Discriminator_forward (disc s) X = Inr out" "length out = length X" "rows 1 out"
      "decision_scores (fst (fit w X self)) = Some (ravel out)"
    by blast
  have "length (ravel out) = length X" using length_ravel [OF s(4)] s(3) by simp
  then show ?thesis using s by simp
qed

theorem decision_scores_length_witness:
  "snd (fit demo_env [[0], [10]] (detector 2)) = Inr () \<and>
   (\<exists>sc. decision_scores (fst (fit demo_env [[0], [10]] (detector 2))) = Some sc \<and>
         length sc = 2)"
proof -
  have r: "snd (fit demo_env [[0], [10]] (detector 2)) = Inr ()"
    by (rule fit_demo_returns [OF valid_pair])
  from decision_scores_length [OF r] show ?thesis using r by auto
qed

text \<open>
  Claim C10. When \<open>fit\<close> completes on \<open>X\<close>, \<open>decision_function\<close> on the same \<open>X\<close>
  returns the stored scores: both are the same forward pass of the same Discriminator.
\<close>

theorem decision_function_reproduces_scores:
  assumes "snd (fit w X self) = Inr ()"
  shows "\<exists>sc. decision_scores (fst (fit w X self)) = Some sc \<and>
              decision_function X (fst (fit w X self)) = Inr sc"
proof -
  note r = fit_returns [OF assms]
  from fit_completes [OF r, of w]
  obtain s out where s: "shaped (length (hd X)) s"
      "Discriminator_forward (disc s) X = Inr out"
      "discriminator (fst (fit w X self)) = Some (disc s)"
      "decision_scores (fst (fit w X self)) = Some (ravel out)"
    by blast
  have "decision_function X (fst (fit w X self)) = Inr (ravel out)"
    by (simp add: decision_function_def s(2,3) r(1) and_then_def)
  then show ?thesis using s(4) by simp
qed

theorem decision_function_reproduces_scores_witness:
  "snd (fit demo_env [[0]] (detector 1)) = Inr () \<and>
   (\<exists>sc. decision_scores (fst (fit demo_env [[0]] (detector 1))) = Some sc \<and>
         decision_function [[0]] (fst (fit demo_env [[0]] (detector 1))) = Inr sc)"
proof -
  have r: "snd (fit demo_env [[0]] (detector 1)) = Inr ()"
    by (rule fit_demo_returns [OF valid_one])
  from decision_function_reproduces_scores [OF r] show ?thesis using r by blast
qed

section \<open>Scoring\<close>

lemma fit_discriminator_shaped:
  assumes "snd (fit w X self) = Inr ()"
  shows "\<exists>D. discriminator (fst (fit w X self)) = Some D \<and>
             Discriminator_shaped (length (hd X)) D"
proof -
  note r = fit_returns [OF assms]
  from fit_completes [OF r, of w]
  obtain s where s: "shaped (length (hd X)) s"
      "discriminator (fst (fit w X self)) = Some (disc s)"
    by blast
  then show ?thesis by (simp add: shaped_def)
qed

lemma valid_two_features: "check_array [[0, 0]] = Inr [[0, 0]]"
  by (simp add: check_array_def)

text \<open>
  Claim C6, as amended. For a detector on which \<open>fit\<close> has completed and an input \<open>X\<close>
  that passes \<open>check_array\<close> but whose feature count differs from that of the training
  data, \<open>decision_function\<close> fails with the \<open>RuntimeError\<close> that the first linear layer
  of the Discriminator raises on rows of the wrong length: the validation does not compare
  \<open>X\<close> with the training dimensionality, and the failure comes from the forward pass.
\<close>

theorem decision_function_feature_mismatch:
  assumes "snd (fit w Xtrain self) = Inr ()" "check_array X = Inr X"
    "length (hd X) \<noteq> length (hd Xtrain)"
  shows "decision_function X (fst (fit w Xtrain self)) = Inl RuntimeError \<and>
    (\<exists>D. discriminator (fst (fit w Xtrain self)) = Some D \<and>
         Linear_forward (d_layer1 D) X = Inl RuntimeError)"
proof -
  from fit_discriminator_shaped [OF assms(1)]
  obtain D where D: "discriminator (fst (fit w Xtrain self)) = Some D"
      "Discriminator_shaped (length (hd Xtrain)) D"
    by blast
  from decision_function_mismatch [OF D assms(2,3)] D(1) show ?thesis by blast
qed

theorem decision_function_feature_mismatch_witness:
  "snd (fit demo_env [[0], [10]] (detector 2)) = Inr () \<and>
   check_array [[0, 0]] = Inr [[0, 0]] \<and>
   length (hd [[0::real, 0]]) \<noteq> length (hd [[0::real], [10]]) \<and>
   decision_function [[0, 0]] (fst (fit demo_env [[0], [10]] (detector 2))) = Inl RuntimeError"
proof -
  have r: "snd (fit demo_env [[0], [10]] (detector 2)) = Inr ()"
    by (rule fit_demo_returns [OF valid_pair])
  have n: "length (hd [[0::real, 0]]) \<noteq> length (hd [[0::real], [10]])" by simp
  from decision_function_feature_mismatch [OF r valid_two_features n]
  show ?thesis using r valid_two_features n by blast
qed

text \<open>
  Claim C6 as stated fails: after a fit on one feature, an input with two features passes
  the validation, and the error is the \<open>RuntimeError\<close> of the forward pass.
\<close>

theorem decision_function_feature_mismatch_counterexample:
  "check_array [[0, 0]] = Inr [[0, 0]] \<and>
   decision_function [[0, 0]] (fst (fit demo_env [[0]] (detector 1))) = Inl RuntimeError"
proof -
  have r: "snd (fit demo_env [[0]] (detector 1)) = Inr ()"
    by (rule fit_demo_returns [OF valid_one])
  from fit_discriminator_shaped [OF r]
  obtain D where D: "discriminator (fst (fit demo_env [[0]] (detector 1))) = Some D"
      "Discriminator_shaped (length (hd [[0::real]])) D"
    by blast
  have n: "length (hd [[0::real, 0]]) \<noteq> length (hd [[0::real]])" by simp
  from decision_function_mismatch(2) [OF D valid_two_features n] valid_two_features
  show ?thesis by blast
qed

text \<open>
  Claim C7, as amended. For a detector whose \<open>discriminator\<close> attribute is absent (a
  freshly constructed one, or one whose calls of \<open>fit\<close> were all rejected by the input
  validation), \<open>decision_function\<close> fails with \<open>NotFittedError\<close>, and a call of \<open>fit\<close>
  that the validation rejects leaves it so.
\<close>

theorem decision_function_not_fitted:
  assumes "discriminator self = None"
  shows "decision_function X self = Inl NotFittedError \<and>
    (\<forall>X0 e. check_array X0 = Inl e \<longrightarrow>
       decision_function X (fst (fit w X0 self)) = Inl NotFittedError)"
  using assms by (simp add: decision_function_def fit_rejected)

theorem decision_function_not_fitted_witness:
  "discriminator (detector 1) = None \<and>
   check_array [] = Inl ValueError \<and>
   decision_function [[0]] (detector 1) = Inl NotFittedError \<and>
   decision_function [[0]] (fst (fit demo_env [] (detector 1))) = Inl NotFittedError"
proof -
  have c: "check_array [] = Inl ValueError" by (simp add: check_array_def)
  from decision_function_not_fitted [OF discriminator_detector, of "[[0]]" 1 demo_env]
  show ?thesis using c discriminator_detector by blast
qed

text \<open>
  Claim C7 as stated fails for a detector whose \<open>fit\<close> raised during training: the
  \<open>discriminator\<close> attribute was assigned before the loop, so after the failed fit on 501
  samples \<open>decision_function\<close> does not report that the detector is not fitted.
\<close>

theorem decision_function_not_fitted_counterexample:
  "snd (fit demo_env (replicate 501 [0]) (detector 1)) = Inl ValueError \<and>
   decision_function (replicate 501 [0]) (fst (fit demo_env (replicate 501 [0]) (detector 1)))
     \<noteq> Inl NotFittedError"
proof -
  let ?X = "replicate 501 [0::real]"
  have se: "1 \<le> stop_epochs (detector 1)" by (simp add: stop_epochs_detector)
  from fit_raises [OF valid_501(1) se valid_501(2,3) accepted_detector, of demo_env]
  obtain s where s: "shaped (length (hd ?X)) s"
      "snd (fit demo_env ?X (detector 1)) = Inl ValueError"
      "discriminator (fst (fit demo_env ?X (detector 1))) = Some (disc s)"
    by blast
  have "Discriminator_shaped (length (hd ?X)) (disc s)" using s(1) by (simp add: shaped_def)
  from decision_function_fitted [OF s(3) this valid_501(1)]
  obtain out where "decision_function ?X (fst (fit demo_env ?X (detector 1))) = Inr (ravel out)"
    by blast
  then show ?thesis using s(2) by simp
qed

section \<open>The range of the Discriminator\<close>







end
